theory Spec2Isabelle
  imports Main
begin

section \<open>Offline-certificate ledger reconciliation: the data model\<close>

text \<open>
  The repository holds two versions of the route \<^verbatim>\<open>POST /sync\<close>:
  \<^item> the one of \<^verbatim>\<open>src/routes/transactionRoutes.ts\<close>, which refunds the unspent part of
    a certificate to the holder's online balance (below: the \<^emph>\<open>refund\<close> variant,
    \<open>sync_refund\<close>);
  \<^item> the one of \<^verbatim>\<open>unnamed/part_000\<close>, which signs a new certificate for the unspent
    part (below: the \<^emph>\<open>change\<close> variant, \<open>sync_change\<close>).
  Both are embedded. Amounts and balances are integers (minor units); a number read
  from JSON is taken to be an integer in the range where JavaScript numbers are exact,
  and the \<^verbatim>\<open>amount\<close> of a transaction is taken to be present.
  A JSON field that may be missing is an \<open>option\<close>; JavaScript's truthiness of such a
  field (\<^verbatim>\<open>!x\<close> holds for \<^verbatim>\<open>undefined\<close>, \<^verbatim>\<open>null\<close> and the empty string) is \<open>truthy\<close>.
\<close>

record user =
  balance :: "int option"
  public_key :: string

record tx_record =
  transaction_id :: string
  sender_user_id :: "string option"
  sender_device_id :: "string option"
  receiver_user_id :: "string option"
  receiver_device_id :: "string option"
  amount :: int
  sender_signature :: "string option"

record transaction_row =
  sender_id :: "string option"
  receiver_id :: "string option"
  row_amount :: int
  row_signature :: "string option"
  payload :: tx_record

record certificate =
  user_id :: string
  device_id :: string
  tip_wallet_balance :: int
  timestamp :: string
  nonce :: string
  expiration :: string
  signature :: string

text \<open>
  The two tables of the store, each keyed by its \<^verbatim>\<open>id\<close> column. A call to the store
  fails only where the contents of the tables make it fail (no row for \<^verbatim>\<open>.single()\<close>, a
  key that exists already for \<^verbatim>\<open>insert\<close>); failures of the connection and constraints
  of a schema that the repository does not contain are outside the model.
\<close>

record store =
  users :: "string \<rightharpoonup> user"
  transactions :: "string \<rightharpoonup> transaction_row"

text \<open>
  \<^verbatim>\<open>CryptoService\<close>: the key pair and the tweetnacl primitives are outside the
  repository, so the service is a parameter. \<open>verify\<close> returns \<open>None\<close> where the
  primitive raises (the route's \<^verbatim>\<open>catch\<close> answers 500 then).
\<close>

record crypto_service =
  getPublicKey :: string
  sign :: "string \<Rightarrow> string"
  verify :: "string \<Rightarrow> string \<Rightarrow> string \<Rightarrow> bool option"

text \<open>
  What a request reads from its environment: the clock (milliseconds), the rendering
  \<^verbatim>\<open>Date.toISOString\<close> and the string derived from \<^verbatim>\<open>Math.random()\<close>.
\<close>

record env =
  now :: nat
  toISOString :: "nat \<Rightarrow> string"
  random_nonce :: string

datatype db_error = PGRST116 | UniqueViolation

datatype 'a http_result =
    Json200 'a
  | Status400 string
  | Status401 string
  | Status404 string
  | Status500 string

record sync_request =
  req_certificate :: "certificate option"
  req_transactions :: "tx_record list option"
  req_user_id :: "string option"

text \<open>The bodies of the 200 answers, without their constant field \<^verbatim>\<open>status: 'ok'\<close>.\<close>

record sync_response =
  processed :: "string list"
  total_spent :: int
  resp_balance :: "int option"

record refund_response = sync_response +
  refunded :: int

record change_response = sync_response +
  new_certificate :: "certificate option"

record loop_state =
  results :: "string list"
  totalSpent :: int
  db :: store

section \<open>JavaScript helpers\<close>

definition truthy :: "string option \<Rightarrow> bool" where
  "truthy s = (case s of None \<Rightarrow> False | Some x \<Rightarrow> x \<noteq> [])"

definition js_or :: "string option \<Rightarrow> string option \<Rightarrow> string option" where
  "js_or a b = (if truthy a then a else b)"

text \<open>\<^verbatim>\<open>(x.balance || 0)\<close>: a null balance counts as zero.\<close>

definition balance_or_0 :: "int option \<Rightarrow> int" where
  "balance_or_0 b = (case b of None \<Rightarrow> 0 | Some v \<Rightarrow> v)"

text \<open>\<^verbatim>\<open>Array.prototype.join\<close> on strings.\<close>

fun join :: "string \<Rightarrow> string list \<Rightarrow> string" where
  "join sep [] = []"
| "join sep [x] = x"
| "join sep (x # y # ys) = x @ sep @ join sep (y # ys)"

text \<open>
  The decimal rendering of an integer, as \<^verbatim>\<open>join\<close> applies it to a number.
  \<open>digit_char\<close> is only applied to numbers below ten.
\<close>

definition digit_char :: "nat \<Rightarrow> char" where
  "digit_char d = ''0123456789'' ! d"

fun string_of_nat :: "nat \<Rightarrow> string" where
  "string_of_nat n =
     (if n < 10 then [digit_char n] else string_of_nat (n div 10) @ [digit_char (n mod 10)])"

declare string_of_nat.simps [simp del]

definition string_of_int :: "int \<Rightarrow> string" where
  "string_of_int i = (if i < 0 then CHR ''-'' # string_of_nat (nat (- i)) else string_of_nat (nat i))"

section \<open>The store adapter\<close>

definition select_transaction_maybeSingle ::
  "store \<Rightarrow> string \<Rightarrow> db_error + transaction_row option" where
  "select_transaction_maybeSingle st tid = Inr (transactions st tid)"

definition select_user_single :: "store \<Rightarrow> string \<Rightarrow> db_error + user" where
  "select_user_single st uid =
     (case users st uid of None \<Rightarrow> Inl PGRST116 | Some u \<Rightarrow> Inr u)"

definition insert_transaction ::
  "store \<Rightarrow> string \<Rightarrow> transaction_row \<Rightarrow> db_error option \<times> store" where
  "insert_transaction st tid row =
     (case transactions st tid of
        Some _ \<Rightarrow> (Some UniqueViolation, st)
      | None \<Rightarrow> (None, st\<lparr>transactions := (transactions st)(tid \<mapsto> row)\<rparr>))"

definition update_user_balance :: "store \<Rightarrow> string \<Rightarrow> int \<Rightarrow> store" where
  "update_user_balance st uid b =
     (case users st uid of
        None \<Rightarrow> st
      | Some u \<Rightarrow> st\<lparr>users := (users st)(uid \<mapsto> u\<lparr>balance := Some b\<rparr>)\<rparr>)"

definition insert_user :: "store \<Rightarrow> string \<Rightarrow> user \<Rightarrow> db_error option \<times> store" where
  "insert_user st uid u =
     (case users st uid of
        Some _ \<Rightarrow> (Some UniqueViolation, st)
      | None \<Rightarrow> (None, st\<lparr>users := (users st)(uid \<mapsto> u)\<rparr>))"

section \<open>Certificates\<close>

text \<open>The string both routes sign and verify: the six fields joined by a bar.\<close>

definition certToVerify :: "certificate \<Rightarrow> string" where
  "certToVerify c =
     join ''|'' [user_id c, device_id c, string_of_int (tip_wallet_balance c),
                 timestamp c, nonce c, expiration c]"

text \<open>Step 1 of \<^verbatim>\<open>/sync\<close>: no certificate passes; \<open>None\<close> is a raising primitive.\<close>

definition isCertValid :: "crypto_service \<Rightarrow> certificate option \<Rightarrow> bool option" where
  "isCertValid cs copt =
     (case copt of
        None \<Rightarrow> Some True
      | Some c \<Rightarrow> verify cs (certToVerify c) (signature c) (getPublicKey cs))"

section \<open>The replay loop\<close>

text \<open>The sender precedence of the loop body, with its three assignments in order.\<close>

definition senderId :: "certificate option \<Rightarrow> tx_record \<Rightarrow> string option" where
  "senderId copt tx =
     (let s0 = sender_user_id tx;
          s1 = (case copt of
                  None \<Rightarrow> s0
                | Some c \<Rightarrow>
                    if \<not> truthy s0 \<and> Some (device_id c) = sender_device_id tx
                    then Some (user_id c) else s0)
      in if \<not> truthy s1 then sender_device_id tx else s1)"

definition receiverId :: "tx_record \<Rightarrow> string option" where
  "receiverId tx =
     js_or (js_or (receiver_user_id tx) (receiver_device_id tx)) (Some ''unknown'')"

text \<open>
  Fetch-then-update of the receiver's balance. The results of the final
  \<^verbatim>\<open>update\<close> and \<^verbatim>\<open>insert\<close> are not inspected by the source.
\<close>

definition credit_receiver :: "store \<Rightarrow> string option \<Rightarrow> int \<Rightarrow> db_error + store" where
  "credit_receiver st rid amt =
     (case rid of
        None \<Rightarrow> Inr st
      | Some r \<Rightarrow>
          if r \<noteq> [] \<and> r \<noteq> ''unknown'' then
            (case select_user_single st r of
               Inl e \<Rightarrow>
                 if e \<noteq> PGRST116 then Inl e
                 else Inr (snd (insert_user st r
                        \<lparr>balance = Some amt, public_key = ''PENDING_INITIALIZATION''\<rparr>))
             | Inr receiver \<Rightarrow>
                 Inr (update_user_balance st r (balance_or_0 (balance receiver) + amt)))
          else Inr st)"

text \<open>
  Insert the row, then credit the receiver: the part of the loop body both variants
  share. A raise carries the store as it is at that point (nothing is rolled back).
\<close>

definition record_and_credit ::
  "certificate option \<Rightarrow> tx_record \<Rightarrow> store \<Rightarrow> (db_error \<times> store) + store" where
  "record_and_credit copt tx st =
     (case insert_transaction st (transaction_id tx)
             \<lparr>sender_id = senderId copt tx, receiver_id = receiverId tx,
              row_amount = amount tx, row_signature = sender_signature tx,
              payload = tx\<rparr> of
        (Some e, st1) \<Rightarrow> Inl (e, st1)
      | (None, st1) \<Rightarrow>
          (case credit_receiver st1 (receiverId tx) (amount tx) of
             Inl e \<Rightarrow> Inl (e, st1)
           | Inr st2 \<Rightarrow> Inr st2))"

text \<open>Loop body of the refund variant (\<^verbatim>\<open>transactionRoutes.ts\<close>, lines 39 to 128).\<close>

definition step_refund ::
  "certificate option \<Rightarrow> tx_record \<Rightarrow> loop_state \<Rightarrow> (db_error \<times> store) + loop_state" where
  "step_refund copt tx ls =
     (case select_transaction_maybeSingle (db ls) (transaction_id tx) of
        Inl e \<Rightarrow> Inl (e, db ls)
      | Inr (Some existing) \<Rightarrow> Inr ls
      | Inr None \<Rightarrow>
          if \<not> truthy (sender_signature tx)
          then Inr (ls\<lparr>results := results ls @ [transaction_id tx]\<rparr>)
          else
            (case record_and_credit copt tx (db ls) of
               Inl err \<Rightarrow> Inl err
             | Inr st' \<Rightarrow>
                 Inr \<lparr>results = results ls @ [transaction_id tx],
                      totalSpent = totalSpent ls + amount tx,
                      db = st'\<rparr>))"

text \<open>Loop body of the change variant (\<^verbatim>\<open>part_000\<close>, lines 74 to 145).\<close>

definition step_change ::
  "certificate option \<Rightarrow> tx_record \<Rightarrow> loop_state \<Rightarrow> (db_error \<times> store) + loop_state" where
  "step_change copt tx ls0 =
     (let ls = ls0\<lparr>results := results ls0 @ [transaction_id tx],
                    totalSpent := totalSpent ls0 + amount tx\<rparr>
      in case select_transaction_maybeSingle (db ls) (transaction_id tx) of
           Inl e \<Rightarrow> Inl (e, db ls)
         | Inr (Some existing) \<Rightarrow> Inr ls
         | Inr None \<Rightarrow>
             if \<not> truthy (sender_signature tx) then Inr ls
             else
               (case record_and_credit copt tx (db ls) of
                  Inl err \<Rightarrow> Inl err
                | Inr st' \<Rightarrow> Inr (ls\<lparr>db := st'\<rparr>)))"

text \<open>\<^verbatim>\<open>for (const tx of transactions)\<close>: a raise ends the loop.\<close>

fun for_of ::
  "(tx_record \<Rightarrow> loop_state \<Rightarrow> (db_error \<times> store) + loop_state) \<Rightarrow>
   tx_record list \<Rightarrow> loop_state \<Rightarrow> (db_error \<times> store) + loop_state" where
  "for_of body [] ls = Inr ls"
| "for_of body (tx # txs) ls =
     (case body tx ls of Inl err \<Rightarrow> Inl err | Inr ls' \<Rightarrow> for_of body txs ls')"

definition initial_loop_state :: "store \<Rightarrow> loop_state" where
  "initial_loop_state st = \<lparr>results = [], totalSpent = 0, db = st\<rparr>"

section \<open>Settlement and response\<close>

text \<open>The final fetch: its error is ignored, a missing row reports zero.\<close>

definition final_balance :: "store \<Rightarrow> string option \<Rightarrow> int option" where
  "final_balance st uid =
     (case uid of
        None \<Rightarrow> Some 0
      | Some u \<Rightarrow> (case users st u of None \<Rightarrow> Some 0 | Some finalUser \<Rightarrow> balance finalUser))"

definition syncingUserId :: "sync_request \<Rightarrow> string option" where
  "syncingUserId req =
     (case req_certificate req of Some c \<Rightarrow> Some (user_id c) | None \<Rightarrow> req_user_id req)"

text \<open>Step 3 of the refund variant: the unspent part goes back to the holder's balance.\<close>

definition refund_unspent ::
  "certificate option \<Rightarrow> int \<Rightarrow> store \<Rightarrow> db_error + (int \<times> store)" where
  "refund_unspent copt spent st =
     (case copt of
        None \<Rightarrow> Inr (0, st)
      | Some c \<Rightarrow>
          let unspent = tip_wallet_balance c - spent
          in if unspent > 0 then
               (case select_user_single st (user_id c) of
                  Inl fetchUserError \<Rightarrow> Inl fetchUserError
                | Inr u \<Rightarrow>
                    Inr (unspent,
                         update_user_balance st (user_id c) (balance_or_0 (balance u) + unspent)))
             else Inr (unspent, st))"

text \<open>Step 3 of the change variant: a new certificate for the unspent part, 30 days.\<close>

definition change_certificate ::
  "env \<Rightarrow> crypto_service \<Rightarrow> certificate option \<Rightarrow> int \<Rightarrow> certificate option" where
  "change_certificate ev cs copt spent =
     (case copt of
        None \<Rightarrow> None
      | Some c \<Rightarrow>
          let unspent = tip_wallet_balance c - spent
          in if unspent > 0 then
               (let ts = toISOString ev (now ev);
                    nc = random_nonce ev;
                    ex = toISOString ev (now ev + 1000 * 60 * 60 * 24 * 30);
                    certData = join ''|'' [user_id c, device_id c, string_of_int unspent,
                                           ts, nc, ex]
                in Some \<lparr>user_id = user_id c, device_id = device_id c,
                         tip_wallet_balance = unspent, timestamp = ts, nonce = nc,
                         expiration = ex, signature = sign cs certData\<rparr>)
             else None)"

definition sync_refund ::
  "crypto_service \<Rightarrow> sync_request \<Rightarrow> store \<Rightarrow> refund_response http_result \<times> store" where
  "sync_refund cs req st =
     (case req_transactions req of
        None \<Rightarrow> (Status400 ''Missing transactions'', st)
      | Some txs \<Rightarrow>
          if req_certificate req = None \<and> \<not> truthy (req_user_id req)
          then (Status400 ''Missing user identification (certificate or user_id)'', st)
          else
            (case isCertValid cs (req_certificate req) of
               None \<Rightarrow> (Status500 ''Sync failed'', st)
             | Some False \<Rightarrow> (Status401 ''Invalid certificate'', st)
             | Some True \<Rightarrow>
                 (case for_of (step_refund (req_certificate req)) txs (initial_loop_state st) of
                    Inl (e, st1) \<Rightarrow> (Status500 ''Sync failed'', st1)
                  | Inr ls \<Rightarrow>
                      (case refund_unspent (req_certificate req) (totalSpent ls) (db ls) of
                         Inl e \<Rightarrow> (Status500 ''Sync failed'', db ls)
                       | Inr (unspent, st2) \<Rightarrow>
                           (Json200 \<lparr>processed = results ls,
                                     total_spent = totalSpent ls,
                                     resp_balance = final_balance st2 (syncingUserId req),
                                     refunded = unspent\<rparr>, st2)))))"

definition sync_change ::
  "env \<Rightarrow> crypto_service \<Rightarrow> sync_request \<Rightarrow> store \<Rightarrow> change_response http_result \<times> store" where
  "sync_change ev cs req st =
     (case req_transactions req of
        None \<Rightarrow> (Status400 ''Missing transactions'', st)
      | Some txs \<Rightarrow>
          if req_certificate req = None \<and> \<not> truthy (req_user_id req)
          then (Status400 ''Missing user identification (certificate or user_id)'', st)
          else
            (case isCertValid cs (req_certificate req) of
               None \<Rightarrow> (Status500 ''Sync failed'', st)
             | Some False \<Rightarrow> (Status401 ''Invalid certificate'', st)
             | Some True \<Rightarrow>
                 (case for_of (step_change (req_certificate req)) txs (initial_loop_state st) of
                    Inl (e, st1) \<Rightarrow> (Status500 ''Sync failed'', st1)
                  | Inr ls \<Rightarrow>
                      (Json200 \<lparr>processed = results ls,
                                total_spent = totalSpent ls,
                                resp_balance = final_balance (db ls) (syncingUserId req),
                                new_certificate =
                                  change_certificate ev cs (req_certificate req) (totalSpent ls)\<rparr>,
                       db ls))))"

section \<open>Issuing a certificate\<close>

record certificate_request =
  cr_user_id :: "string option"
  cr_device_id :: "string option"
  cr_amount :: "int option"

text \<open>
  \<^verbatim>\<open>POST /certificate\<close> of the wallet routes: the amount leaves the online balance
  and a certificate valid for 24 hours is signed. In a comparison or a subtraction a
  null balance is the number zero.
\<close>

definition issue_certificate ::
  "env \<Rightarrow> crypto_service \<Rightarrow> certificate_request \<Rightarrow> store \<Rightarrow>
   certificate http_result \<times> store" where
  "issue_certificate ev cs rq st =
     (case (cr_user_id rq, cr_device_id rq, cr_amount rq) of
        (Some uid, Some dev, Some amt) \<Rightarrow>
          if uid = [] \<or> dev = [] then (Status400 ''Missing parameters'', st)
          else
            (case select_user_single st uid of
               Inl e \<Rightarrow> (Status404 ''User not found'', st)
             | Inr u \<Rightarrow>
                 if balance_or_0 (balance u) < amt
                 then (Status400 ''Insufficient balance on server'', st)
                 else
                   (let newBalance = balance_or_0 (balance u) - amt;
                        st1 = update_user_balance st uid newBalance;
                        ts = toISOString ev (now ev);
                        nc = random_nonce ev;
                        ex = toISOString ev (now ev + 24 * 60 * 60 * 1000);
                        dataToSign = join ''|'' [uid, dev, string_of_int amt, ts, nc, ex]
                    in (Json200 \<lparr>user_id = uid, device_id = dev, tip_wallet_balance = amt,
                                  timestamp = ts, nonce = nc, expiration = ex,
                                  signature = sign cs dataToSign\<rparr>, st1)))
      | _ \<Rightarrow> (Status400 ''Missing parameters'', st))"

section \<open>Notions used in the statements\<close>

text \<open>The number of fields in which two certificates differ.\<close>

definition changed_fields :: "certificate \<Rightarrow> certificate \<Rightarrow> nat" where
  "changed_fields c c' =
     length (filter id
       [user_id c \<noteq> user_id c', device_id c \<noteq> device_id c',
        tip_wallet_balance c \<noteq> tip_wallet_balance c', timestamp c \<noteq> timestamp c',
        nonce c \<noteq> nonce c', expiration c \<noteq> expiration c',
        signature c \<noteq> signature c'])"

text \<open>A transaction the loop records when it reaches it: not stored yet, and signed.\<close>

definition recordable :: "store \<Rightarrow> tx_record \<Rightarrow> bool" where
  "recordable st tx =
     (transactions st (transaction_id tx) = None \<and> truthy (sender_signature tx))"

section \<open>Concrete instances\<close>

text \<open>A toy signature service, an environment, a store and requests to evaluate on.\<close>

definition toy_crypto :: crypto_service where
  "toy_crypto =
     \<lparr>getPublicKey = ''PK'', sign = (\<lambda>m. ''sig:'' @ m),
      verify = (\<lambda>m s k. Some (s = ''sig:'' @ m \<and> k = ''PK''))\<rparr>"

definition toy_env :: env where
  "toy_env = \<lparr>now = 0, toISOString = (\<lambda>t. string_of_nat t), random_nonce = ''n1''\<rparr>"

definition alice_store :: store where
  "alice_store =
     \<lparr>users = [''alice'' \<mapsto> \<lparr>balance = Some 5, public_key = ''pk-alice''\<rparr>],
      transactions = Map.empty\<rparr>"

definition unsigned_cert :: certificate where
  "unsigned_cert =
     \<lparr>user_id = ''alice'', device_id = ''dev-a'', tip_wallet_balance = 100,
      timestamp = ''t0'', nonce = ''n0'', expiration = ''t1'', signature = []\<rparr>"

definition alice_cert :: certificate where
  "alice_cert = unsigned_cert\<lparr>signature := ''sig:'' @ certToVerify unsigned_cert\<rparr>"

definition tx60 :: tx_record where
  "tx60 =
     \<lparr>transaction_id = ''t1'', sender_user_id = None, sender_device_id = Some ''dev-a'',
      receiver_user_id = Some ''bob'', receiver_device_id = None, amount = 60,
      sender_signature = Some ''s1''\<rparr>"

definition alice_request :: sync_request where
  "alice_request =
     \<lparr>req_certificate = Some alice_cert, req_transactions = Some [tx60],
      req_user_id = None\<rparr>"

definition ghost_request :: sync_request where
  "ghost_request =
     \<lparr>req_certificate = None, req_transactions = Some [], req_user_id = Some ''ghost''\<rparr>"

definition stored_store :: store where
  "stored_store =
     \<lparr>users = [''alice'' \<mapsto> \<lparr>balance = Some 5, public_key = ''pk-alice''\<rparr>,
               ''bob'' \<mapsto> \<lparr>balance = Some 60, public_key = ''PENDING_INITIALIZATION''\<rparr>],
      transactions = [''t1'' \<mapsto>
         \<lparr>sender_id = Some ''alice'', receiver_id = Some ''bob'', row_amount = 60,
          row_signature = Some ''s1'', payload = tx60\<rparr>]\<rparr>"

definition retry_request :: sync_request where
  "retry_request =
     \<lparr>req_certificate = None, req_transactions = Some [tx60], req_user_id = Some ''alice''\<rparr>"

definition refunded_store :: store where
  "refunded_store =
     \<lparr>users = [''bob'' \<mapsto> \<lparr>balance = Some 60, public_key = ''PENDING_INITIALIZATION''\<rparr>,
               ''alice'' \<mapsto> \<lparr>balance = Some 45, public_key = ''pk-alice''\<rparr>],
      transactions = [''t1'' \<mapsto>
         \<lparr>sender_id = Some ''alice'', receiver_id = Some ''bob'', row_amount = 60,
          row_signature = Some ''s1'', payload = tx60\<rparr>]\<rparr>"

definition tx_negative :: tx_record where
  "tx_negative =
     \<lparr>transaction_id = ''t2'', sender_user_id = Some ''mallory'', sender_device_id = None,
      receiver_user_id = Some ''alice'', receiver_device_id = None, amount = - 5,
      sender_signature = Some ''s2''\<rparr>"

definition negative_request :: sync_request where
  "negative_request =
     \<lparr>req_certificate = None, req_transactions = Some [tx_negative],
      req_user_id = Some ''mallory''\<rparr>"





text \<open>
  A second toy service, which raises on a signature that is not well formed (here: one
  that does not start with \<^verbatim>\<open>sig:\<close>), as the primitive does on a signature that does
  not decode to the right size. \<open>forged_cert\<close> has a well-formed signature for another
  message, \<open>malformed_cert\<close> a signature that is not well formed.
\<close>

definition strict_crypto :: crypto_service where
  "strict_crypto =
     \<lparr>getPublicKey = ''PK'', sign = (\<lambda>m. ''sig:'' @ m),
      verify = (\<lambda>m s k. if take 4 s = ''sig:'' then Some (s = ''sig:'' @ m \<and> k = ''PK'')
                         else None)\<rparr>"

definition forged_cert :: certificate where
  "forged_cert = unsigned_cert\<lparr>signature := ''sig:forged''\<rparr>"

definition malformed_cert :: certificate where
  "malformed_cert = unsigned_cert\<lparr>signature := ''abc''\<rparr>"

definition ghost_batch_request :: sync_request where
  "ghost_batch_request =
     \<lparr>req_certificate = None, req_transactions = Some [tx60], req_user_id = Some ''ghost''\<rparr>"

definition bob_request :: sync_request where
  "bob_request =
     \<lparr>req_certificate = None, req_transactions = Some [tx60], req_user_id = Some ''bob''\<rparr>"

definition relay_store :: store where
  "relay_store =
     \<lparr>users = [''alice'' \<mapsto> \<lparr>balance = Some 5, public_key = ''pk-alice''\<rparr>,
               ''bob'' \<mapsto> \<lparr>balance = Some 60, public_key = ''PENDING_INITIALIZATION''\<rparr>],
      transactions = [''t1'' \<mapsto>
         \<lparr>sender_id = Some ''dev-a'', receiver_id = Some ''bob'', row_amount = 60,
          row_signature = Some ''s1'', payload = tx60\<rparr>]\<rparr>"

section \<open>The store adapter and the loop body: basic facts\<close>

lemma select_tx_simp [simp]: "select_transaction_maybeSingle st tid = Inr (transactions st tid)"
  by (simp add: select_transaction_maybeSingle_def)

lemma credit_receiver_total: "\<exists>st'. credit_receiver st rid amt = Inr st'"
  by (simp add: credit_receiver_def select_user_single_def split: option.splits)

lemma credit_receiver_transactions:
  "credit_receiver st rid amt = Inr st' \<Longrightarrow> transactions st' = transactions st"
  by (auto simp: credit_receiver_def select_user_single_def update_user_balance_def insert_user_def
           split: option.splits if_splits)

lemma credit_receiver_users:
  "credit_receiver st rid amt = Inr st' \<Longrightarrow>
   users st' uid =
     (if rid = Some uid \<and> uid \<noteq> [] \<and> uid \<noteq> ''unknown'' then
        (case users st uid of
           None \<Rightarrow> Some \<lparr>balance = Some amt, public_key = ''PENDING_INITIALIZATION''\<rparr>
         | Some u \<Rightarrow> Some (u\<lparr>balance := Some (balance_or_0 (balance u) + amt)\<rparr>))
      else users st uid)"
  by (auto simp: credit_receiver_def select_user_single_def update_user_balance_def insert_user_def
           split: option.splits if_splits)

lemma record_and_credit_total:
  assumes "transactions st (transaction_id tx) = None"
  shows "\<exists>st'. record_and_credit copt tx st = Inr st'"
proof -
  let ?row = "\<lparr>sender_id = senderId copt tx, receiver_id = receiverId tx,
              row_amount = amount tx, row_signature = sender_signature tx,
              payload = tx\<rparr>"
  let ?st1 = "st\<lparr>transactions := (transactions st)(transaction_id tx \<mapsto> ?row)\<rparr>"
  obtain st2 where "credit_receiver ?st1 (receiverId tx) (amount tx) = Inr st2"
    using credit_receiver_total by blast
  with assms show ?thesis
    by (simp add: record_and_credit_def insert_transaction_def)
qed

lemma record_and_credit_transactions:
  "record_and_credit copt tx st = Inr st' \<Longrightarrow>
   transactions st' = (transactions st)(transaction_id tx \<mapsto>
      \<lparr>sender_id = senderId copt tx, receiver_id = receiverId tx,
              row_amount = amount tx, row_signature = sender_signature tx,
              payload = tx\<rparr>)"
  by (auto simp: record_and_credit_def insert_transaction_def 
           split: option.splits sum.splits dest!: credit_receiver_transactions)

lemma record_and_credit_users:
  "record_and_credit copt tx st = Inr st' \<Longrightarrow>
   users st' uid =
     (if receiverId tx = Some uid \<and> uid \<noteq> [] \<and> uid \<noteq> ''unknown'' then
        (case users st uid of
           None \<Rightarrow> Some \<lparr>balance = Some (amount tx), public_key = ''PENDING_INITIALIZATION''\<rparr>
         | Some u \<Rightarrow> Some (u\<lparr>balance := Some (balance_or_0 (balance u) + amount tx)\<rparr>))
      else users st uid)"
  by (auto simp: record_and_credit_def insert_transaction_def 
           split: option.splits sum.splits dest!: credit_receiver_users[where uid=uid])

lemma record_and_credit_mono:
  assumes "record_and_credit copt tx st = Inr st'" and "0 \<le> amount tx" and "users st uid = Some u"
  shows "\<exists>u'. users st' uid = Some u' \<and> balance_or_0 (balance u) \<le> balance_or_0 (balance u')"
  using assms(2,3) by (simp add: record_and_credit_users [OF assms(1)] balance_or_0_def)

lemma step_change_total: "\<exists>ls'. step_change copt tx ls = Inr ls'"
proof (cases "transactions (db ls) (transaction_id tx) = None \<and> truthy (sender_signature tx)")
  case True
  then obtain st' where "record_and_credit copt tx (db ls) = Inr st'"
    using record_and_credit_total by blast
  with True show ?thesis by (simp add: step_change_def Let_def)
next
  case False
  then show ?thesis by (auto simp: step_change_def Let_def split: option.splits)
qed

lemma step_refund_total: "\<exists>ls'. step_refund copt tx ls = Inr ls'"
proof (cases "transactions (db ls) (transaction_id tx) = None \<and> truthy (sender_signature tx)")
  case True
  then obtain st' where "record_and_credit copt tx (db ls) = Inr st'"
    using record_and_credit_total by blast
  with True show ?thesis by (simp add: step_refund_def)
next
  case False
  then show ?thesis by (auto simp: step_refund_def split: option.splits)
qed

lemma step_change_skip:
  "transactions (db ls) (transaction_id tx) \<noteq> None \<or> \<not> truthy (sender_signature tx) \<Longrightarrow>
   step_change copt tx ls =
     Inr (ls\<lparr>results := results ls @ [transaction_id tx],
             totalSpent := totalSpent ls + amount tx\<rparr>)"
  by (auto simp: step_change_def Let_def split: option.splits)

lemma step_change_acc:
  "step_change copt tx ls = Inr ls' \<Longrightarrow>
   results ls' = results ls @ [transaction_id tx] \<and> totalSpent ls' = totalSpent ls + amount tx"
  by (auto simp: step_change_def Let_def split: option.splits sum.splits if_splits)

lemma step_refund_existing:
  "transactions (db ls) (transaction_id tx) \<noteq> None \<Longrightarrow> step_refund copt tx ls = Inr ls"
  by (auto simp: step_refund_def)

lemma for_of_total:
  assumes "\<And>tx ls. \<exists>ls'. body tx ls = Inr ls'"
  shows "\<exists>ls'. for_of body txs ls = Inr ls'"
proof (induction txs arbitrary: ls)
  case Nil
  show ?case by simp
next
  case (Cons tx txs)
  obtain ls1 where "body tx ls = Inr ls1" using assms by blast
  then show ?case using Cons.IH [of ls1] by simp
qed

lemma for_of_append:
  "for_of body (xs @ ys) ls =
     (case for_of body xs ls of Inl err \<Rightarrow> Inl err | Inr ls' \<Rightarrow> for_of body ys ls')"
  by (induction xs arbitrary: ls) (auto split: sum.splits)

lemma for_of_preserves:
  assumes step: "\<And>tx a b. tx \<in> set txs \<Longrightarrow> body tx a = Inr b \<Longrightarrow> R a b"
    and refl: "\<And>a. R a a"
    and trans: "\<And>a b c. R a b \<Longrightarrow> R b c \<Longrightarrow> R a c"
    and run: "for_of body txs ls = Inr ls'"
  shows "R ls ls'"
  using step run
proof (induction txs arbitrary: ls)
  case Nil
  then show ?case using refl by simp
next
  case (Cons tx txs)
  from Cons.prems(2) obtain ls1 where b: "body tx ls = Inr ls1" and r: "for_of body txs ls1 = Inr ls'"
    by (auto split: sum.splits)
  have "R ls ls1" using Cons.prems(1) [of tx ls ls1] b by simp
  moreover have "R ls1 ls'"
  proof (rule Cons.IH [OF _ r])
    fix t a b assume "t \<in> set txs" "body t a = Inr b"
    then show "R a b" using Cons.prems(1) [of t a b] by simp
  qed
  ultimately show ?case using trans by blast
qed

section \<open>The routes as a whole\<close>

lemma for_of_change_total: "\<exists>ls'. for_of (step_change copt) txs ls = Inr ls'"
  by (rule for_of_total) (rule step_change_total)

lemma for_of_refund_total: "\<exists>ls'. for_of (step_refund copt) txs ls = Inr ls'"
  by (rule for_of_total) (rule step_refund_total)

lemma for_of_change_acc:
  "for_of (step_change copt) txs ls = Inr ls' \<Longrightarrow>
   results ls' = results ls @ map transaction_id txs \<and>
   totalSpent ls' = totalSpent ls + sum_list (map amount txs)"
proof (induction txs arbitrary: ls)
  case Nil
  then show ?case by simp
next
  case (Cons tx txs)
  from Cons.prems obtain ls1 where s: "step_change copt tx ls = Inr ls1"
    and r: "for_of (step_change copt) txs ls1 = Inr ls'"
    by (auto split: sum.splits)
  show ?case using Cons.IH [OF r] step_change_acc [OF s] by simp
qed

lemma sync_change_ok:
  assumes "req_transactions req = Some txs"
    and "req_certificate req \<noteq> None \<or> truthy (req_user_id req)"
    and "isCertValid cs (req_certificate req) = Some True"
  shows "\<exists>ls. for_of (step_change (req_certificate req)) txs (initial_loop_state st) = Inr ls \<and>
           sync_change ev cs req st =
             (Json200 \<lparr>processed = results ls, total_spent = totalSpent ls,
                       resp_balance = final_balance (db ls) (syncingUserId req),
                       new_certificate =
                         change_certificate ev cs (req_certificate req) (totalSpent ls)\<rparr>,
              db ls)"
proof -
  obtain ls where "for_of (step_change (req_certificate req)) txs (initial_loop_state st) = Inr ls"
    using for_of_change_total by blast
  with assms show ?thesis by (auto simp: sync_change_def)
qed

lemma sync_refund_ok:
  assumes "req_transactions req = Some txs"
    and "req_certificate req \<noteq> None \<or> truthy (req_user_id req)"
    and "isCertValid cs (req_certificate req) = Some True"
  shows "\<exists>ls. for_of (step_refund (req_certificate req)) txs (initial_loop_state st) = Inr ls \<and>
           sync_refund cs req st =
             (case refund_unspent (req_certificate req) (totalSpent ls) (db ls) of
                Inl e \<Rightarrow> (Status500 ''Sync failed'', db ls)
              | Inr (unspent, st2) \<Rightarrow>
                  (Json200 \<lparr>processed = results ls, total_spent = totalSpent ls,
                            resp_balance = final_balance st2 (syncingUserId req),
                            refunded = unspent\<rparr>, st2))"
proof -
  obtain ls where "for_of (step_refund (req_certificate req)) txs (initial_loop_state st) = Inr ls"
    using for_of_refund_total by blast
  with assms show ?thesis by (auto simp: sync_refund_def)
qed

lemma sync_change_cases:
  "(\<exists>msg. sync_change ev cs req st = (Status400 msg, st)) \<or>
   sync_change ev cs req st = (Status401 ''Invalid certificate'', st) \<or>
   sync_change ev cs req st = (Status500 ''Sync failed'', st) \<or>
   (\<exists>txs. req_transactions req = Some txs \<and>
      (req_certificate req \<noteq> None \<or> truthy (req_user_id req)) \<and>
      isCertValid cs (req_certificate req) = Some True)"
  by (auto simp: sync_change_def split: option.splits bool.splits)

lemma certToVerify_signature [simp]: "certToVerify (c\<lparr>signature := s\<rparr>) = certToVerify c"
  by (simp add: certToVerify_def)

lemma alice_cert_valid: "isCertValid toy_crypto (Some alice_cert) = Some True"
  by (simp add: isCertValid_def toy_crypto_def alice_cert_def)

lemmas route_defs =
  initial_loop_state_def step_refund_def step_change_def Let_def truthy_def
  record_and_credit_def insert_transaction_def credit_receiver_def receiverId_def js_or_def
  select_user_single_def insert_user_def refund_unspent_def update_user_balance_def
  balance_or_0_def final_balance_def syncingUserId_def senderId_def

section \<open>The claims\<close>

lemma syncingUserId_Some:
  "req_certificate req \<noteq> None \<or> truthy (req_user_id req) \<Longrightarrow> \<exists>uid. syncingUserId req = Some uid"
  by (auto simp: syncingUserId_def truthy_def split: option.splits)

lemma final_balance_Some:
  "final_balance st (Some uid) = (case users st uid of None \<Rightarrow> Some 0 | Some u \<Rightarrow> balance u)"
  by (simp add: final_balance_def)

lemma sync_change_Json200:
  assumes "sync_change ev cs req st = (Json200 resp, st')"
  shows "\<exists>txs. req_transactions req = Some txs \<and>
      (req_certificate req \<noteq> None \<or> truthy (req_user_id req)) \<and>
      isCertValid cs (req_certificate req) = Some True"
  using sync_change_cases [of ev cs req st] assms by auto

lemma sync_refund_Json200:
  assumes "sync_refund cs req st = (Json200 resp, st')"
  shows "\<exists>txs ls unspent. req_transactions req = Some txs \<and>
      (req_certificate req \<noteq> None \<or> truthy (req_user_id req)) \<and>
      isCertValid cs (req_certificate req) = Some True \<and>
      for_of (step_refund (req_certificate req)) txs (initial_loop_state st) = Inr ls \<and>
      refund_unspent (req_certificate req) (totalSpent ls) (db ls) = Inr (unspent, st') \<and>
      resp = \<lparr>processed = results ls, total_spent = totalSpent ls,
               resp_balance = final_balance st' (syncingUserId req), refunded = unspent\<rparr>"
  using assms
  by (auto simp: sync_refund_def split: option.splits bool.splits sum.splits prod.splits if_splits)

lemma ghost_change_run:
  "sync_change toy_env toy_crypto ghost_request alice_store =
     (Json200 \<lparr>processed = [], total_spent = 0, resp_balance = Some 0, new_certificate = None\<rparr>,
      alice_store)"
  by (simp add: sync_change_def ghost_request_def isCertValid_def route_defs change_certificate_def
        alice_store_def)

lemma ghost_refund_run:
  "sync_refund toy_crypto ghost_request alice_store =
     (Json200 \<lparr>processed = [], total_spent = 0, resp_balance = Some 0, refunded = 0\<rparr>,
      alice_store)"
  by (simp add: sync_refund_def ghost_request_def isCertValid_def route_defs alice_store_def)

text \<open>
  The claim as stated fails: a syncing user who has never been seen gets the answer
  zero, but no row is created for them by either version of the route.
\<close>

theorem sync_auto_provision_counterexample:
  "users alice_store ''ghost'' = None \<and>
   fst (sync_change toy_env toy_crypto ghost_request alice_store) =
     Json200 \<lparr>processed = [], total_spent = 0, resp_balance = Some 0, new_certificate = None\<rparr> \<and>
   users (snd (sync_change toy_env toy_crypto ghost_request alice_store)) ''ghost'' = None \<and>
   fst (sync_refund toy_crypto ghost_request alice_store) =
     Json200 \<lparr>processed = [], total_spent = 0, resp_balance = Some 0, refunded = 0\<rparr> \<and>
   users (snd (sync_refund toy_crypto ghost_request alice_store)) ''ghost'' = None"
  by (simp add: ghost_change_run ghost_refund_run) (simp add: alice_store_def)

lemma refund_unspent_positive:
  assumes "0 < tip_wallet_balance c - spent" and "users st (user_id c) = Some u"
  shows "refund_unspent (Some c) spent st =
           Inr (tip_wallet_balance c - spent,
                st\<lparr>users := (users st)(user_id c \<mapsto>
                      u\<lparr>balance := Some (balance_or_0 (balance u) + (tip_wallet_balance c - spent))\<rparr>)\<rparr>)"
  using assms by (simp add: refund_unspent_def select_user_single_def update_user_balance_def Let_def)

text \<open>
  Claim C1, as amended. In the change version of the route (\<open>sync_change\<close>), settlement
  writes nothing: for a valid certificate the store the call returns is the store the
  replay loop produced, so every balance has the value it had before settlement and the
  unspent amount is carried by the new certificate only. In the refund version
  (\<open>sync_refund\<close>), when the unspent remainder is positive and the holder has a row,
  settlement adds the remainder to the holder's balance and changes nothing else.
\<close>

theorem change_settlement_frame:
  assumes "req_transactions req = Some txs"
    and "req_certificate req = Some c"
    and "isCertValid cs (Some c) = Some True"
  shows "(\<exists>ls. for_of (step_change (Some c)) txs (initial_loop_state st) = Inr ls \<and>
            snd (sync_change ev cs req st) = db ls \<and>
            (0 < tip_wallet_balance c - totalSpent ls \<longrightarrow>
               (\<exists>resp nc. fst (sync_change ev cs req st) = Json200 resp \<and>
                  new_certificate resp = Some nc \<and>
                  tip_wallet_balance nc = tip_wallet_balance c - totalSpent ls))) \<and>
         (\<exists>ls. for_of (step_refund (Some c)) txs (initial_loop_state st) = Inr ls \<and>
            (\<forall>u. 0 < tip_wallet_balance c - totalSpent ls \<and> users (db ls) (user_id c) = Some u \<longrightarrow>
               snd (sync_refund cs req st) =
                 (db ls)\<lparr>users := (users (db ls))(user_id c \<mapsto>
                    u\<lparr>balance := Some (balance_or_0 (balance u) +
                                         (tip_wallet_balance c - totalSpent ls))\<rparr>)\<rparr>))"
proof (rule conjI)
  have h: "req_certificate req \<noteq> None \<or> truthy (req_user_id req)"
    "isCertValid cs (req_certificate req) = Some True"
    using assms by simp_all
  from sync_change_ok [OF assms(1) h, of st ev] obtain ls where
    l: "for_of (step_change (req_certificate req)) txs (initial_loop_state st) = Inr ls"
    and s: "sync_change ev cs req st =
             (Json200 \<lparr>processed = results ls, total_spent = totalSpent ls,
                       resp_balance = final_balance (db ls) (syncingUserId req),
                       new_certificate =
                         change_certificate ev cs (req_certificate req) (totalSpent ls)\<rparr>,
              db ls)" by blast
  show "\<exists>ls. for_of (step_change (Some c)) txs (initial_loop_state st) = Inr ls \<and>
            snd (sync_change ev cs req st) = db ls \<and>
            (0 < tip_wallet_balance c - totalSpent ls \<longrightarrow>
               (\<exists>resp nc. fst (sync_change ev cs req st) = Json200 resp \<and>
                  new_certificate resp = Some nc \<and>
                  tip_wallet_balance nc = tip_wallet_balance c - totalSpent ls))"
    using l s assms(2) by (intro exI [of _ ls]) (simp add: change_certificate_def Let_def)
next
  have h: "req_certificate req \<noteq> None \<or> truthy (req_user_id req)"
    "isCertValid cs (req_certificate req) = Some True"
    using assms by simp_all
  from sync_refund_ok [OF assms(1) h, of st] obtain ls where
    l: "for_of (step_refund (req_certificate req)) txs (initial_loop_state st) = Inr ls"
    and s: "sync_refund cs req st =
             (case refund_unspent (req_certificate req) (totalSpent ls) (db ls) of
                Inl e \<Rightarrow> (Status500 ''Sync failed'', db ls)
              | Inr (unspent, st2) \<Rightarrow>
                  (Json200 \<lparr>processed = results ls, total_spent = totalSpent ls,
                            resp_balance = final_balance st2 (syncingUserId req),
                            refunded = unspent\<rparr>, st2))" by blast
  show "\<exists>ls. for_of (step_refund (Some c)) txs (initial_loop_state st) = Inr ls \<and>
            (\<forall>u. 0 < tip_wallet_balance c - totalSpent ls \<and> users (db ls) (user_id c) = Some u \<longrightarrow>
               snd (sync_refund cs req st) =
                 (db ls)\<lparr>users := (users (db ls))(user_id c \<mapsto>
                    u\<lparr>balance := Some (balance_or_0 (balance u) +
                                         (tip_wallet_balance c - totalSpent ls))\<rparr>)\<rparr>)"
    using l s assms(2) by (intro exI [of _ ls]) (simp add: refund_unspent_positive)
qed

lemma alice_change_loop:
  "for_of (step_change (Some alice_cert)) [tx60] (initial_loop_state alice_store) =
     Inr \<lparr>results = [''t1''], totalSpent = 60,
          db = \<lparr>users = [''alice'' \<mapsto> \<lparr>balance = Some 5, public_key = ''pk-alice''\<rparr>,
                         ''bob'' \<mapsto> \<lparr>balance = Some 60, public_key = ''PENDING_INITIALIZATION''\<rparr>],
                transactions = [''t1'' \<mapsto>
                  \<lparr>sender_id = Some ''alice'', receiver_id = Some ''bob'', row_amount = 60,
                   row_signature = Some ''s1'', payload = tx60\<rparr>]\<rparr>\<rparr>"
  by (simp add: route_defs alice_store_def tx60_def alice_cert_def unsigned_cert_def)

lemma alice_refund_loop:
  "for_of (step_refund (Some alice_cert)) [tx60] (initial_loop_state alice_store) =
     Inr \<lparr>results = [''t1''], totalSpent = 60,
          db = \<lparr>users = [''alice'' \<mapsto> \<lparr>balance = Some 5, public_key = ''pk-alice''\<rparr>,
                         ''bob'' \<mapsto> \<lparr>balance = Some 60, public_key = ''PENDING_INITIALIZATION''\<rparr>],
                transactions = [''t1'' \<mapsto>
                  \<lparr>sender_id = Some ''alice'', receiver_id = Some ''bob'', row_amount = 60,
                   row_signature = Some ''s1'', payload = tx60\<rparr>]\<rparr>\<rparr>"
  by (simp add: route_defs alice_store_def tx60_def alice_cert_def unsigned_cert_def)

lemma alice_cert_fields:
  "tip_wallet_balance alice_cert = 100" "user_id alice_cert = ''alice''"
  "device_id alice_cert = ''dev-a''"
  by (simp_all add: alice_cert_def unsigned_cert_def)

lemma alice_refund_full:
  "sync_refund toy_crypto alice_request alice_store =
     (Json200 \<lparr>processed = [''t1''], total_spent = 60, resp_balance = Some 45, refunded = 40\<rparr>,
      \<lparr>users = [''bob'' \<mapsto> \<lparr>balance = Some 60, public_key = ''PENDING_INITIALIZATION''\<rparr>,
                ''alice'' \<mapsto> \<lparr>balance = Some 45, public_key = ''pk-alice''\<rparr>],
       transactions = [''t1'' \<mapsto>
         \<lparr>sender_id = Some ''alice'', receiver_id = Some ''bob'', row_amount = 60,
          row_signature = Some ''s1'', payload = tx60\<rparr>]\<rparr>)"
  by (simp add: sync_refund_def alice_request_def alice_cert_valid route_defs alice_store_def
        tx60_def)
     (simp add: alice_cert_def unsigned_cert_def)

theorem change_settlement_frame_witness:
  "users (snd (sync_change toy_env toy_crypto alice_request alice_store)) ''alice'' =
     Some \<lparr>balance = Some 5, public_key = ''pk-alice''\<rparr> \<and>
   users (snd (sync_refund toy_crypto alice_request alice_store)) ''alice'' =
     Some \<lparr>balance = Some 45, public_key = ''pk-alice''\<rparr>"
proof -
  have h: "req_transactions alice_request = Some [tx60]"
    "req_certificate alice_request = Some alice_cert"
    by (simp_all add: alice_request_def)
  from change_settlement_frame [OF h alice_cert_valid, of alice_store toy_env]
  obtain ls1 :: loop_state and ls2 :: loop_state where
    c: "for_of (step_change (Some alice_cert)) [tx60] (initial_loop_state alice_store) = Inr ls1"
       "snd (sync_change toy_env toy_crypto alice_request alice_store) = db ls1"
    and r: "for_of (step_refund (Some alice_cert)) [tx60] (initial_loop_state alice_store) = Inr ls2"
       "\<forall>u. 0 < tip_wallet_balance alice_cert - totalSpent ls2 \<and>
            users (db ls2) (user_id alice_cert) = Some u \<longrightarrow>
            snd (sync_refund toy_crypto alice_request alice_store) =
              (db ls2)\<lparr>users := (users (db ls2))(user_id alice_cert \<mapsto>
                 u\<lparr>balance := Some (balance_or_0 (balance u) +
                        (tip_wallet_balance alice_cert - totalSpent ls2))\<rparr>)\<rparr>"
    by blast
  from c(1) have l1: "ls1 = \<lparr>results = [''t1''], totalSpent = 60,
          db = \<lparr>users = [''alice'' \<mapsto> \<lparr>balance = Some 5, public_key = ''pk-alice''\<rparr>,
                         ''bob'' \<mapsto> \<lparr>balance = Some 60, public_key = ''PENDING_INITIALIZATION''\<rparr>],
                transactions = [''t1'' \<mapsto>
                  \<lparr>sender_id = Some ''alice'', receiver_id = Some ''bob'', row_amount = 60,
                   row_signature = Some ''s1'', payload = tx60\<rparr>]\<rparr>\<rparr>"
    unfolding alice_change_loop by simp
  from r(1) have l2: "ls2 = \<lparr>results = [''t1''], totalSpent = 60,
          db = \<lparr>users = [''alice'' \<mapsto> \<lparr>balance = Some 5, public_key = ''pk-alice''\<rparr>,
                         ''bob'' \<mapsto> \<lparr>balance = Some 60, public_key = ''PENDING_INITIALIZATION''\<rparr>],
                transactions = [''t1'' \<mapsto>
                  \<lparr>sender_id = Some ''alice'', receiver_id = Some ''bob'', row_amount = 60,
                   row_signature = Some ''s1'', payload = tx60\<rparr>]\<rparr>\<rparr>"
    unfolding alice_refund_loop by simp
  have "users (snd (sync_change toy_env toy_crypto alice_request alice_store)) ''alice'' =
     Some \<lparr>balance = Some 5, public_key = ''pk-alice''\<rparr>"
    using c(2) l1 by simp
  moreover have "users (snd (sync_refund toy_crypto alice_request alice_store)) ''alice'' =
     Some \<lparr>balance = Some 45, public_key = ''pk-alice''\<rparr>"
    using r(2) l2 by (simp add: alice_cert_fields balance_or_0_def)
  ultimately show ?thesis by simp
qed

text \<open>
  The claim as stated fails on the refund version: with a certificate for 100 and a batch
  that spends 60, the holder's online balance goes from 5 to 45.
\<close>

theorem refund_credits_holder_counterexample:
  "isCertValid toy_crypto (req_certificate alice_request) = Some True \<and>
   users alice_store ''alice'' = Some \<lparr>balance = Some 5, public_key = ''pk-alice''\<rparr> \<and>
   fst (sync_refund toy_crypto alice_request alice_store) =
     Json200 \<lparr>processed = [''t1''], total_spent = 60, resp_balance = Some 45, refunded = 40\<rparr> \<and>
   users (snd (sync_refund toy_crypto alice_request alice_store)) ''alice'' =
     Some \<lparr>balance = Some 45, public_key = ''pk-alice''\<rparr>"
  by (simp add: alice_refund_full) (simp add: alice_request_def alice_cert_valid alice_store_def)

lemma change_certificate_Some:
  assumes "0 < tip_wallet_balance c - spent"
  shows "\<exists>nc. change_certificate ev cs (Some c) spent = Some nc \<and>
           user_id nc = user_id c \<and> device_id nc = device_id c \<and>
           tip_wallet_balance nc = tip_wallet_balance c - spent \<and>
           timestamp nc = toISOString ev (now ev) \<and>
           nonce nc = random_nonce ev \<and>
           expiration nc = toISOString ev (now ev + 1000 * 60 * 60 * 24 * 30) \<and>
           signature nc = sign cs (certToVerify nc)"
  using assms by (simp add: change_certificate_def Let_def certToVerify_def)

lemma change_certificate_None:
  "\<not> 0 < tip_wallet_balance c - spent \<Longrightarrow> change_certificate ev cs (Some c) spent = None"
  by (simp add: change_certificate_def Let_def)

text \<open>
  Claim C2, as amended: the claim as it stands, for the change version of the route
  (\<open>sync_change\<close>). With a valid certificate of balance \<open>B\<close> and a batch whose amounts sum
  to \<open>S < B\<close>, the response carries a new certificate for the same user and device with
  \<open>tip_wallet_balance = B - S\<close>, and the route's own check accepts it, given that the
  signature service accepts what it signed; with \<open>S \<ge> B\<close> the new certificate is null.
\<close>

theorem change_issuance:
  assumes "req_transactions req = Some txs"
    and "req_certificate req = Some c"
    and "isCertValid cs (Some c) = Some True"
    and "\<forall>m. verify cs m (sign cs m) (getPublicKey cs) = Some True"
  shows "\<exists>resp. fst (sync_change ev cs req st) = Json200 resp \<and>
           total_spent resp = sum_list (map amount txs) \<and>
           (if sum_list (map amount txs) < tip_wallet_balance c
            then \<exists>nc. new_certificate resp = Some nc \<and>
                   tip_wallet_balance nc = tip_wallet_balance c - sum_list (map amount txs) \<and>
                   user_id nc = user_id c \<and> device_id nc = device_id c \<and>
                   isCertValid cs (Some nc) = Some True
            else new_certificate resp = None)"
proof -
  have h: "req_certificate req \<noteq> None \<or> truthy (req_user_id req)"
    "isCertValid cs (req_certificate req) = Some True"
    using assms by simp_all
  from sync_change_ok [OF assms(1) h, of st ev] obtain ls where
    l: "for_of (step_change (req_certificate req)) txs (initial_loop_state st) = Inr ls"
    and s: "sync_change ev cs req st =
             (Json200 \<lparr>processed = results ls, total_spent = totalSpent ls,
                       resp_balance = final_balance (db ls) (syncingUserId req),
                       new_certificate =
                         change_certificate ev cs (req_certificate req) (totalSpent ls)\<rparr>,
              db ls)" by blast
  have t: "totalSpent ls = sum_list (map amount txs)"
    using for_of_change_acc [OF l] by (simp add: initial_loop_state_def)
  show ?thesis
  proof (cases "sum_list (map amount txs) < tip_wallet_balance c")
    case True
    then have "0 < tip_wallet_balance c - totalSpent ls" using t by simp
    from change_certificate_Some [OF this, of ev cs] obtain nc where
      nc: "change_certificate ev cs (Some c) (totalSpent ls) = Some nc"
        "user_id nc = user_id c" "device_id nc = device_id c"
        "tip_wallet_balance nc = tip_wallet_balance c - totalSpent ls"
        "signature nc = sign cs (certToVerify nc)" by blast
    have "isCertValid cs (Some nc) = Some True"
      using assms(4) nc(5) by (simp add: isCertValid_def)
    with True nc s t assms(2) show ?thesis by simp
  next
    case False
    then have "\<not> 0 < tip_wallet_balance c - totalSpent ls" using t by simp
    from change_certificate_None [OF this] False s t assms(2) show ?thesis by simp
  qed
qed

lemma alice_change_full:
  "sync_change toy_env toy_crypto alice_request alice_store =
     (Json200 \<lparr>processed = [''t1''], total_spent = 60, resp_balance = Some 5,
        new_certificate = Some \<lparr>user_id = ''alice'', device_id = ''dev-a'',
          tip_wallet_balance = 40, timestamp = ''0'', nonce = ''n1'',
          expiration = ''2592000000'', signature = ''sig:alice|dev-a|40|0|n1|2592000000''\<rparr>\<rparr>,
      \<lparr>users = [''alice'' \<mapsto> \<lparr>balance = Some 5, public_key = ''pk-alice''\<rparr>,
                ''bob'' \<mapsto> \<lparr>balance = Some 60, public_key = ''PENDING_INITIALIZATION''\<rparr>],
       transactions = [''t1'' \<mapsto>
         \<lparr>sender_id = Some ''alice'', receiver_id = Some ''bob'', row_amount = 60,
          row_signature = Some ''s1'', payload = tx60\<rparr>]\<rparr>)"
  by (simp add: sync_change_def alice_request_def alice_cert_valid route_defs alice_store_def
        tx60_def change_certificate_def)
     (simp add: alice_cert_def unsigned_cert_def toy_env_def toy_crypto_def string_of_int_def
        string_of_nat.simps digit_char_def)

theorem change_issuance_witness:
  "\<exists>resp nc. fst (sync_change toy_env toy_crypto alice_request alice_store) = Json200 resp \<and>
      total_spent resp = 60 \<and> new_certificate resp = Some nc \<and>
      tip_wallet_balance nc = 40 \<and> isCertValid toy_crypto (Some nc) = Some True"
proof -
  have h: "req_transactions alice_request = Some [tx60]"
    "req_certificate alice_request = Some alice_cert"
    by (simp_all add: alice_request_def)
  have v: "\<forall>m. verify toy_crypto m (sign toy_crypto m) (getPublicKey toy_crypto) = Some True"
    by (simp add: toy_crypto_def)
  from change_issuance [OF h alice_cert_valid v, of toy_env alice_store]
  show ?thesis by (auto simp: tx60_def alice_cert_fields)
qed

text \<open>
  The claim as stated fails on the refund version: its response has no certificate;
  for a certificate of 100 and a batch of 60 it reports \<open>refunded = 40\<close>.
\<close>

theorem refund_response_counterexample:
  "fst (sync_refund toy_crypto alice_request alice_store) =
     Json200 \<lparr>processed = [''t1''], total_spent = 60, resp_balance = Some 45, refunded = 40\<rparr>"
  by (simp add: alice_refund_full)

lemma step_change_db:
  "step_change copt tx ls = Inr ls' \<Longrightarrow>
   (if recordable (db ls) tx then record_and_credit copt tx (db ls) = Inr (db ls')
    else db ls' = db ls)"
  by (auto simp: step_change_def Let_def recordable_def split: option.splits sum.splits if_splits)

lemma step_refund_db:
  "step_refund copt tx ls = Inr ls' \<Longrightarrow>
   (if recordable (db ls) tx then record_and_credit copt tx (db ls) = Inr (db ls')
    else db ls' = db ls)"
  by (auto simp: step_refund_def recordable_def split: option.splits sum.splits if_splits)

lemma step_refund_acc:
  "step_refund copt tx ls = Inr ls' \<Longrightarrow>
   totalSpent ls' = totalSpent ls + (if recordable (db ls) tx then amount tx else 0) \<and>
   results ls' = results ls @
     (if transactions (db ls) (transaction_id tx) = None then [transaction_id tx] else [])"
  by (auto simp: step_refund_def recordable_def split: option.splits sum.splits if_splits)

lemma step_db_transactions:
  assumes "if recordable st tx then record_and_credit copt tx st = Inr st' else st' = st"
  shows "transactions st' =
           (if recordable st tx
            then (transactions st)(transaction_id tx \<mapsto>
                   \<lparr>sender_id = senderId copt tx, receiver_id = receiverId tx,
                    row_amount = amount tx, row_signature = sender_signature tx,
                    payload = tx\<rparr>)
            else transactions st)"
  using assms by (auto dest: record_and_credit_transactions)

lemma recordable_other:
  assumes "if recordable st tx then record_and_credit copt tx st = Inr st' else st' = st"
    and "transaction_id t \<noteq> transaction_id tx"
  shows "recordable st' t = recordable st t"
  using assms(2) by (simp add: recordable_def step_db_transactions [OF assms(1)])

lemma step_db_settled:
  assumes "if recordable st tx then record_and_credit copt tx st = Inr st' else st' = st"
  shows "\<not> recordable st' tx"
  using step_db_transactions [OF assms] by (auto simp: recordable_def)

lemma step_db_settled_mono:
  assumes "if recordable st tx then record_and_credit copt tx st = Inr st' else st' = st"
    and "\<not> recordable st t"
  shows "\<not> recordable st' t"
  using assms(2) step_db_transactions [OF assms(1)] by (auto simp: recordable_def)

lemma for_of_refund_total_spent:
  assumes "for_of (step_refund copt) txs ls = Inr ls'"
    and "distinct (map transaction_id txs)"
  shows "totalSpent ls' = totalSpent ls + sum_list (map amount (filter (recordable (db ls)) txs))"
  using assms
proof (induction txs arbitrary: ls)
  case Nil
  then show ?case by simp
next
  case (Cons tx txs)
  from Cons.prems(1) obtain ls1 where s: "step_refund copt tx ls = Inr ls1"
    and r: "for_of (step_refund copt) txs ls1 = Inr ls'"
    by (auto split: sum.splits)
  have d: "distinct (map transaction_id txs)" using Cons.prems(2) by simp
  have "filter (recordable (db ls1)) txs = filter (recordable (db ls)) txs"
  proof (rule filter_cong [OF refl])
    fix t assume t: "t \<in> set txs"
    have "transaction_id tx \<notin> transaction_id ` set txs" using Cons.prems(2) by simp
    moreover have "transaction_id t \<in> transaction_id ` set txs" using t by (rule imageI)
    ultimately have "transaction_id t \<noteq> transaction_id tx" by metis
    then have "transaction_id t \<noteq> transaction_id tx" .
    then show "recordable (db ls1) t = recordable (db ls) t"
      using recordable_other [OF step_refund_db [OF s]] by simp
  qed
  with Cons.IH [OF r d] step_refund_acc [OF s] show ?case by simp
qed

text \<open>
  Claim C4, as amended. In the change version of the route the returned \<open>total_spent\<close>
  is the sum of the amounts of every transaction of the batch, those already stored
  and those without a signature included. In the refund version only the transactions
  recorded in this round count: for a batch of distinct ids, \<open>total_spent\<close> is the sum
  of the amounts of the transactions that were not stored before the call and carry
  a signature.
\<close>

theorem total_spent_accounting:
  assumes "req_transactions req = Some txs"
    and "req_certificate req \<noteq> None \<or> truthy (req_user_id req)"
    and "isCertValid cs (req_certificate req) = Some True"
  shows "(\<exists>resp. fst (sync_change ev cs req st) = Json200 resp \<and>
            total_spent resp = sum_list (map amount txs)) \<and>
         (\<forall>resp. fst (sync_refund cs req st) = Json200 resp \<and>
                 distinct (map transaction_id txs) \<longrightarrow>
            total_spent resp = sum_list (map amount (filter (recordable st) txs)))"
proof (intro conjI allI impI)
  from sync_change_ok [OF assms, of st ev] obtain ls where
    l: "for_of (step_change (req_certificate req)) txs (initial_loop_state st) = Inr ls"
    and s: "sync_change ev cs req st =
             (Json200 \<lparr>processed = results ls, total_spent = totalSpent ls,
                       resp_balance = final_balance (db ls) (syncingUserId req),
                       new_certificate =
                         change_certificate ev cs (req_certificate req) (totalSpent ls)\<rparr>,
              db ls)" by blast
  have "totalSpent ls = sum_list (map amount txs)"
    using for_of_change_acc [OF l] by (simp add: initial_loop_state_def)
  with s show "\<exists>resp. fst (sync_change ev cs req st) = Json200 resp \<and>
            total_spent resp = sum_list (map amount txs)" by simp
next
  fix resp
  assume a: "fst (sync_refund cs req st) = Json200 resp \<and> distinct (map transaction_id txs)"
  obtain st' where "sync_refund cs req st = (Json200 resp, st')"
    using a by (cases "sync_refund cs req st") simp
  from sync_refund_Json200 [OF this] assms(1) obtain ls :: loop_state and unspent where
    l: "for_of (step_refund (req_certificate req)) txs (initial_loop_state st) = Inr ls"
    and r: "resp = \<lparr>processed = results ls, total_spent = totalSpent ls,
               resp_balance = final_balance st' (syncingUserId req), refunded = unspent\<rparr>"
    by auto
  from for_of_refund_total_spent [OF l] a r
  show "total_spent resp = sum_list (map amount (filter (recordable st) txs))"
    by (simp add: initial_loop_state_def)
qed

lemma retry_refund_full:
  "sync_refund toy_crypto retry_request stored_store =
     (Json200 \<lparr>processed = [], total_spent = 0, resp_balance = Some 5, refunded = 0\<rparr>,
      stored_store)"
  by (simp add: sync_refund_def retry_request_def isCertValid_def route_defs stored_store_def)
     (simp add: tx60_def)

lemma retry_change_full:
  "sync_change toy_env toy_crypto retry_request stored_store =
     (Json200 \<lparr>processed = [''t1''], total_spent = 60, resp_balance = Some 5,
               new_certificate = None\<rparr>, stored_store)"
  by (simp add: sync_change_def retry_request_def isCertValid_def route_defs stored_store_def
        change_certificate_def)
     (simp add: tx60_def)

theorem total_spent_accounting_witness:
  "sum_list (map amount (filter (recordable alice_store) [tx60])) = 60 \<and>
   (\<exists>resp. fst (sync_change toy_env toy_crypto alice_request alice_store) = Json200 resp \<and>
      total_spent resp = 60) \<and>
   (\<exists>resp. fst (sync_refund toy_crypto alice_request alice_store) = Json200 resp \<and>
      total_spent resp = 60)"
proof -
  have h: "req_transactions alice_request = Some [tx60]"
    "req_certificate alice_request \<noteq> None \<or> truthy (req_user_id alice_request)"
    "isCertValid toy_crypto (req_certificate alice_request) = Some True"
    using alice_cert_valid by (simp_all add: alice_request_def)
  have f: "filter (recordable alice_store) [tx60] = [tx60]"
    by (simp add: recordable_def alice_store_def tx60_def truthy_def)
  from total_spent_accounting [OF h, of toy_env alice_store] f
  show ?thesis by (simp add: alice_refund_full) (simp add: tx60_def)
qed

text \<open>
  The claim as stated fails on the refund version: the batch holds a transaction of 60
  whose id is already stored, and \<open>total_spent\<close> is 0.
\<close>

theorem refund_total_spent_counterexample:
  "transactions stored_store (transaction_id tx60) \<noteq> None \<and> amount tx60 = 60 \<and>
   req_transactions retry_request = Some [tx60] \<and>
   (\<exists>resp. fst (sync_refund toy_crypto retry_request stored_store) = Json200 resp \<and>
      total_spent resp = 0)"
  by (simp add: retry_refund_full) (simp add: stored_store_def tx60_def retry_request_def)

lemma step_db_row_kept:
  assumes "if recordable st tx then record_and_credit copt tx st = Inr st' else st' = st"
    and "transactions st tid = Some row"
  shows "transactions st' tid = Some row"
  using assms(2) step_db_transactions [OF assms(1)] by (auto simp: recordable_def)

lemma for_of_change_row_kept:
  assumes "for_of (step_change copt) txs ls = Inr ls'" and "transactions (db ls) tid = Some row"
  shows "transactions (db ls') tid = Some row"
proof -
  have "transactions (db ls) tid = Some row \<longrightarrow> transactions (db ls') tid = Some row"
    by (rule for_of_preserves
          [where R = "\<lambda>a b. transactions (db a) tid = Some row \<longrightarrow> transactions (db b) tid = Some row",
           OF _ _ _ assms(1)])
       (auto dest: step_db_row_kept [OF step_change_db])
  with assms(2) show ?thesis by simp
qed

lemma for_of_refund_row_kept:
  assumes "for_of (step_refund copt) txs ls = Inr ls'" and "transactions (db ls) tid = Some row"
  shows "transactions (db ls') tid = Some row"
proof -
  have "transactions (db ls) tid = Some row \<longrightarrow> transactions (db ls') tid = Some row"
    by (rule for_of_preserves
          [where R = "\<lambda>a b. transactions (db a) tid = Some row \<longrightarrow> transactions (db b) tid = Some row",
           OF _ _ _ assms(1)])
       (auto dest: step_db_row_kept [OF step_refund_db])
  with assms(2) show ?thesis by simp
qed

text \<open>
  Claim C3, as amended. Let a transaction of the batch have an id that is already
  stored when the call starts, and let \<open>pre\<close> be the part of the batch before it. Then in
  both versions of the route the replay of that transaction leaves the store as the
  prefix left it: no row is inserted or changed and no balance is credited. In the
  change version its id is appended to the processed list and its amount is added to
  \<open>totalSpent\<close>. In the refund version neither happens: the loop state after the
  transaction is the loop state before it.
\<close>

theorem stored_transaction_replay:
  assumes "transactions st (transaction_id tx) = Some row"
  shows "(\<exists>ls1. for_of (step_change copt) pre (initial_loop_state st) = Inr ls1 \<and>
            for_of (step_change copt) (pre @ [tx]) (initial_loop_state st) =
              Inr (ls1\<lparr>results := results ls1 @ [transaction_id tx],
                       totalSpent := totalSpent ls1 + amount tx\<rparr>)) \<and>
         (\<exists>ls1. for_of (step_refund copt) pre (initial_loop_state st) = Inr ls1 \<and>
            for_of (step_refund copt) (pre @ [tx]) (initial_loop_state st) = Inr ls1)"
proof (rule conjI)
  obtain ls1 where l: "for_of (step_change copt) pre (initial_loop_state st) = Inr ls1"
    using for_of_change_total by blast
  have "transactions (db ls1) (transaction_id tx) = Some row"
    using for_of_change_row_kept [OF l] assms by (simp add: initial_loop_state_def)
  then have "step_change copt tx ls1 =
      Inr (ls1\<lparr>results := results ls1 @ [transaction_id tx],
               totalSpent := totalSpent ls1 + amount tx\<rparr>)"
    by (simp add: step_change_skip)
  with l show "\<exists>ls1. for_of (step_change copt) pre (initial_loop_state st) = Inr ls1 \<and>
            for_of (step_change copt) (pre @ [tx]) (initial_loop_state st) =
              Inr (ls1\<lparr>results := results ls1 @ [transaction_id tx],
                       totalSpent := totalSpent ls1 + amount tx\<rparr>)"
    by (simp add: for_of_append)
next
  obtain ls1 where l: "for_of (step_refund copt) pre (initial_loop_state st) = Inr ls1"
    using for_of_refund_total by blast
  have "transactions (db ls1) (transaction_id tx) = Some row"
    using for_of_refund_row_kept [OF l] assms by (simp add: initial_loop_state_def)
  then have "step_refund copt tx ls1 = Inr ls1"
    by (simp add: step_refund_existing)
  with l show "\<exists>ls1. for_of (step_refund copt) pre (initial_loop_state st) = Inr ls1 \<and>
            for_of (step_refund copt) (pre @ [tx]) (initial_loop_state st) = Inr ls1"
    by (simp add: for_of_append)
qed

theorem stored_transaction_replay_witness:
  "for_of (step_change None) [tx60] (initial_loop_state stored_store) =
     Inr \<lparr>results = [''t1''], totalSpent = 60, db = stored_store\<rparr> \<and>
   for_of (step_refund None) [tx60] (initial_loop_state stored_store) =
     Inr \<lparr>results = [], totalSpent = 0, db = stored_store\<rparr>"
proof -
  have h: "transactions stored_store (transaction_id tx60) =
     Some \<lparr>sender_id = Some ''alice'', receiver_id = Some ''bob'', row_amount = 60,
          row_signature = Some ''s1'', payload = tx60\<rparr>"
    by (simp add: stored_store_def tx60_def)
  from stored_transaction_replay [OF h, of None "[]"]
  show ?thesis by (simp add: initial_loop_state_def) (simp add: tx60_def)
qed

text \<open>
  The claim as stated fails on each version in one part. The batch holds one
  transaction, of amount 60, whose id is stored: the change version counts the 60 in
  \<open>total_spent\<close>; the refund version returns an empty processed list.
\<close>

theorem stored_transaction_counterexample:
  "transactions stored_store (transaction_id tx60) \<noteq> None \<and>
   req_transactions retry_request = Some [tx60] \<and>
   fst (sync_change toy_env toy_crypto retry_request stored_store) =
     Json200 \<lparr>processed = [''t1''], total_spent = 60, resp_balance = Some 5,
              new_certificate = None\<rparr> \<and>
   fst (sync_refund toy_crypto retry_request stored_store) =
     Json200 \<lparr>processed = [], total_spent = 0, resp_balance = Some 5, refunded = 0\<rparr>"
  by (simp add: retry_refund_full retry_change_full)
     (simp add: stored_store_def tx60_def retry_request_def)

lemma for_of_change_settled_kept:
  assumes "for_of (step_change copt) txs ls = Inr ls'" and "\<not> recordable (db ls) t"
  shows "\<not> recordable (db ls') t"
proof -
  have "\<not> recordable (db ls) t \<longrightarrow> \<not> recordable (db ls') t"
    by (rule for_of_preserves
          [where R = "\<lambda>a b. \<not> recordable (db a) t \<longrightarrow> \<not> recordable (db b) t",
           OF _ _ _ assms(1)])
       (auto dest: step_db_settled_mono [OF step_change_db])
  with assms(2) show ?thesis by simp
qed

lemma for_of_change_settles:
  "for_of (step_change copt) txs ls = Inr ls' \<Longrightarrow> \<forall>t \<in> set txs. \<not> recordable (db ls') t"
proof (induction txs arbitrary: ls)
  case Nil
  then show ?case by simp
next
  case (Cons tx txs)
  from Cons.prems obtain ls1 where s: "step_change copt tx ls = Inr ls1"
    and r: "for_of (step_change copt) txs ls1 = Inr ls'"
    by (auto split: sum.splits)
  have "\<not> recordable (db ls1) tx" by (rule step_db_settled [OF step_change_db [OF s]])
  then have "\<not> recordable (db ls') tx" by (rule for_of_change_settled_kept [OF r])
  with Cons.IH [OF r] show ?case by simp
qed

lemma for_of_change_settled_skip:
  "\<forall>t \<in> set txs. \<not> recordable (db ls) t \<Longrightarrow>
   for_of (step_change copt) txs ls =
     Inr (ls\<lparr>results := results ls @ map transaction_id txs,
             totalSpent := totalSpent ls + sum_list (map amount txs)\<rparr>)"
proof (induction txs arbitrary: ls)
  case Nil
  then show ?case by simp
next
  case (Cons tx txs)
  let ?ls1 = "ls\<lparr>results := results ls @ [transaction_id tx],
                  totalSpent := totalSpent ls + amount tx\<rparr>"
  have "step_change copt tx ls = Inr ?ls1"
    using Cons.prems by (intro step_change_skip) (simp add: recordable_def)
  moreover have "\<forall>t \<in> set txs. \<not> recordable (db ?ls1) t" using Cons.prems by simp
  ultimately show ?case using Cons.IH [of ?ls1] by (simp add: add.assoc)
qed

lemma sync_change_not_ok:
  assumes "\<not> (\<exists>txs. req_transactions req = Some txs \<and>
      (req_certificate req \<noteq> None \<or> truthy (req_user_id req)) \<and>
      isCertValid cs (req_certificate req) = Some True)"
  shows "snd (sync_change ev cs req st) = st \<and> (\<forall>resp. fst (sync_change ev cs req st) \<noteq> Json200 resp)"
  using assms by (auto simp: sync_change_def split: option.splits bool.splits)

text \<open>
  Claim C5, as amended: the claim as it stands, for the change version of the route
  (\<open>sync_change\<close>). Running the same request a second time on the store the first run
  left behind changes nothing in the store (no balance and no row), and, where the
  first run succeeded, the second succeeds with the same processed list, the same
  \<open>total_spent\<close> and the same balance.
\<close>

theorem sync_change_replay_idempotent:
  "snd (sync_change ev2 cs req (snd (sync_change ev1 cs req st))) =
     snd (sync_change ev1 cs req st) \<and>
   (\<forall>resp1. fst (sync_change ev1 cs req st) = Json200 resp1 \<longrightarrow>
      (\<exists>resp2. fst (sync_change ev2 cs req (snd (sync_change ev1 cs req st))) = Json200 resp2 \<and>
         processed resp2 = processed resp1 \<and>
         total_spent resp2 = total_spent resp1 \<and>
         resp_balance resp2 = resp_balance resp1))"
proof (cases "\<exists>txs. req_transactions req = Some txs \<and>
      (req_certificate req \<noteq> None \<or> truthy (req_user_id req)) \<and>
      isCertValid cs (req_certificate req) = Some True")
  case False
  from sync_change_not_ok [OF False, of ev1 st] sync_change_not_ok [OF False, of ev2 st]
  show ?thesis by simp
next
  case True
  then obtain txs where h: "req_transactions req = Some txs"
    "req_certificate req \<noteq> None \<or> truthy (req_user_id req)"
    "isCertValid cs (req_certificate req) = Some True" by blast
  from sync_change_ok [OF h, of st ev1] obtain ls1 where
    l1: "for_of (step_change (req_certificate req)) txs (initial_loop_state st) = Inr ls1"
    and s1: "sync_change ev1 cs req st =
             (Json200 \<lparr>processed = results ls1, total_spent = totalSpent ls1,
                       resp_balance = final_balance (db ls1) (syncingUserId req),
                       new_certificate =
                         change_certificate ev1 cs (req_certificate req) (totalSpent ls1)\<rparr>,
              db ls1)" by blast
  from sync_change_ok [OF h, of "db ls1" ev2] obtain ls2 where
    l2: "for_of (step_change (req_certificate req)) txs (initial_loop_state (db ls1)) = Inr ls2"
    and s2: "sync_change ev2 cs req (db ls1) =
             (Json200 \<lparr>processed = results ls2, total_spent = totalSpent ls2,
                       resp_balance = final_balance (db ls2) (syncingUserId req),
                       new_certificate =
                         change_certificate ev2 cs (req_certificate req) (totalSpent ls2)\<rparr>,
              db ls2)" by blast
  have a1: "results ls1 = map transaction_id txs" "totalSpent ls1 = sum_list (map amount txs)"
    using for_of_change_acc [OF l1] by (simp_all add: initial_loop_state_def)
  have "\<forall>t \<in> set txs. \<not> recordable (db (initial_loop_state (db ls1))) t"
    using for_of_change_settles [OF l1] by (simp add: initial_loop_state_def)
  from for_of_change_settled_skip [OF this, of "req_certificate req"] l2
  have "db ls2 = db ls1" "results ls2 = map transaction_id txs"
    "totalSpent ls2 = sum_list (map amount txs)"
    by (auto simp: initial_loop_state_def)
  with a1 s1 s2 show ?thesis by simp
qed

lemma alice_refund_second:
  "sync_refund toy_crypto alice_request refunded_store =
     (Json200 \<lparr>processed = [], total_spent = 0, resp_balance = Some 145, refunded = 100\<rparr>,
      \<lparr>users = [''bob'' \<mapsto> \<lparr>balance = Some 60, public_key = ''PENDING_INITIALIZATION''\<rparr>,
                ''alice'' \<mapsto> \<lparr>balance = Some 145, public_key = ''pk-alice''\<rparr>],
       transactions = [''t1'' \<mapsto>
         \<lparr>sender_id = Some ''alice'', receiver_id = Some ''bob'', row_amount = 60,
          row_signature = Some ''s1'', payload = tx60\<rparr>]\<rparr>)"
  by (simp add: sync_refund_def alice_request_def alice_cert_valid route_defs refunded_store_def)
     (simp add: alice_cert_def unsigned_cert_def tx60_def)

theorem sync_change_replay_idempotent_witness:
  "snd (sync_change toy_env toy_crypto alice_request alice_store) = stored_store \<and>
   snd (sync_change toy_env toy_crypto alice_request stored_store) = stored_store \<and>
   (\<exists>resp2. fst (sync_change toy_env toy_crypto alice_request stored_store) = Json200 resp2 \<and>
      processed resp2 = [''t1''] \<and> total_spent resp2 = 60 \<and> resp_balance resp2 = Some 5)"
proof -
  have s: "snd (sync_change toy_env toy_crypto alice_request alice_store) = stored_store"
    by (simp add: alice_change_full stored_store_def)
  from sync_change_replay_idempotent [of toy_env toy_crypto alice_request toy_env alice_store]
  show ?thesis unfolding s by (simp add: alice_change_full)
qed

text \<open>
  The claim as stated fails on the refund version. The first run processes \<open>t1\<close> and
  leaves the holder at 45; the second run of the same request returns an empty
  processed list and, counting nothing as spent, refunds the whole certificate: the
  holder's balance becomes 145.
\<close>

theorem refund_replay_counterexample:
  "sync_refund toy_crypto alice_request alice_store =
     (Json200 \<lparr>processed = [''t1''], total_spent = 60, resp_balance = Some 45, refunded = 40\<rparr>,
      refunded_store) \<and>
   fst (sync_refund toy_crypto alice_request refunded_store) =
     Json200 \<lparr>processed = [], total_spent = 0, resp_balance = Some 145, refunded = 100\<rparr> \<and>
   users refunded_store ''alice'' = Some \<lparr>balance = Some 45, public_key = ''pk-alice''\<rparr> \<and>
   users (snd (sync_refund toy_crypto alice_request refunded_store)) ''alice'' =
     Some \<lparr>balance = Some 145, public_key = ''pk-alice''\<rparr>"
  by (simp add: alice_refund_full alice_refund_second) (simp add: refunded_store_def)

lemma step_db_balance_mono:
  assumes "if recordable st tx then record_and_credit copt tx st = Inr st' else st' = st"
    and "0 \<le> amount tx" and "users st uid = Some u"
  shows "\<exists>u'. users st' uid = Some u' \<and> balance_or_0 (balance u) \<le> balance_or_0 (balance u')"
proof (cases "recordable st tx")
  case True
  with assms(1) have "record_and_credit copt tx st = Inr st'" by simp
  from record_and_credit_mono [OF this assms(2,3)] show ?thesis .
next
  case False
  with assms(1,3) show ?thesis by simp
qed

lemma for_of_balance_mono:
  assumes run: "for_of body txs ls = Inr ls'"
    and body: "\<And>tx a b. body tx a = Inr b \<Longrightarrow>
        (if recordable (db a) tx then record_and_credit copt tx (db a) = Inr (db b)
         else db b = db a)"
    and nonneg: "\<forall>tx \<in> set txs. 0 \<le> amount tx"
    and u: "users (db ls) uid = Some u"
  shows "\<exists>u'. users (db ls') uid = Some u' \<and> balance_or_0 (balance u) \<le> balance_or_0 (balance u')"
proof -
  let ?R = "\<lambda>a b. \<forall>v. users (db a) uid = Some v \<longrightarrow>
              (\<exists>v'. users (db b) uid = Some v' \<and> balance_or_0 (balance v) \<le> balance_or_0 (balance v'))"
  have "?R ls ls'"
  proof (rule for_of_preserves [where R = ?R, OF _ _ _ run])
    fix tx a b assume "tx \<in> set txs" "body tx a = Inr b"
    then show "?R a b" using step_db_balance_mono [OF body] nonneg by blast
  next
    fix a :: loop_state show "?R a a" by simp
  next
    fix a b c :: loop_state assume "?R a b" "?R b c"
    then show "?R a c" by (meson order_trans)
  qed
  with u show ?thesis by simp
qed

lemma refund_unspent_users:
  "refund_unspent copt spent st = Inr (unspent, st') \<Longrightarrow>
   users st' uid =
     (case copt of
        None \<Rightarrow> users st uid
      | Some c \<Rightarrow>
          if 0 < tip_wallet_balance c - spent \<and> uid = user_id c
          then map_option
                 (\<lambda>u. u\<lparr>balance := Some (balance_or_0 (balance u) + (tip_wallet_balance c - spent))\<rparr>)
                 (users st uid)
          else users st uid)"
  by (auto simp: refund_unspent_def Let_def select_user_single_def update_user_balance_def
           split: option.splits if_splits)

lemma refund_unspent_balance_mono:
  assumes "refund_unspent copt spent st = Inr (unspent, st')" and "users st uid = Some u"
  shows "\<exists>u'. users st' uid = Some u' \<and> balance_or_0 (balance u) \<le> balance_or_0 (balance u')"
  using assms(2)
  by (cases copt) (auto simp: refund_unspent_users [OF assms(1)] balance_or_0_def)

lemma sync_balance_lower_bound:
  assumes "req_transactions req = Some txs"
    and "\<forall>tx \<in> set txs. 0 \<le> amount tx"
    and "users st uid = Some u"
  shows "(\<exists>u'. users (snd (sync_change ev cs req st)) uid = Some u' \<and>
            balance_or_0 (balance u) \<le> balance_or_0 (balance u')) \<and>
         (\<exists>u'. users (snd (sync_refund cs req st)) uid = Some u' \<and>
            balance_or_0 (balance u) \<le> balance_or_0 (balance u'))"
proof (rule conjI)
  show "\<exists>u'. users (snd (sync_change ev cs req st)) uid = Some u' \<and>
            balance_or_0 (balance u) \<le> balance_or_0 (balance u')"
  proof (cases "(req_certificate req \<noteq> None \<or> truthy (req_user_id req)) \<and>
      isCertValid cs (req_certificate req) = Some True")
    case True
    from sync_change_ok [OF assms(1), of cs st ev] True obtain ls where
      l: "for_of (step_change (req_certificate req)) txs (initial_loop_state st) = Inr ls"
      and s: "snd (sync_change ev cs req st) = db ls" by auto
    have "users (db (initial_loop_state st)) uid = Some u"
      using assms(3) by (simp add: initial_loop_state_def)
    from for_of_balance_mono [OF l step_change_db assms(2) this] s show ?thesis by simp
  next
    case False
    with assms(1) have "\<not> (\<exists>txs. req_transactions req = Some txs \<and>
      (req_certificate req \<noteq> None \<or> truthy (req_user_id req)) \<and>
      isCertValid cs (req_certificate req) = Some True)" by simp
    from sync_change_not_ok [OF this, of ev st] assms(3) show ?thesis by simp
  qed
next
  show "\<exists>u'. users (snd (sync_refund cs req st)) uid = Some u' \<and>
            balance_or_0 (balance u) \<le> balance_or_0 (balance u')"
  proof (cases "(req_certificate req \<noteq> None \<or> truthy (req_user_id req)) \<and>
      isCertValid cs (req_certificate req) = Some True")
    case True
    from sync_refund_ok [OF assms(1), of cs st] True obtain ls where
      l: "for_of (step_refund (req_certificate req)) txs (initial_loop_state st) = Inr ls"
      and s: "sync_refund cs req st =
             (case refund_unspent (req_certificate req) (totalSpent ls) (db ls) of
                Inl e \<Rightarrow> (Status500 ''Sync failed'', db ls)
              | Inr (unspent, st2) \<Rightarrow>
                  (Json200 \<lparr>processed = results ls, total_spent = totalSpent ls,
                            resp_balance = final_balance st2 (syncingUserId req),
                            refunded = unspent\<rparr>, st2))" by auto
    have "users (db (initial_loop_state st)) uid = Some u"
      using assms(3) by (simp add: initial_loop_state_def)
    from for_of_balance_mono [OF l step_refund_db assms(2) this] obtain u1 where
      u1: "users (db ls) uid = Some u1" "balance_or_0 (balance u) \<le> balance_or_0 (balance u1)"
      by blast
    show ?thesis
    proof (cases "refund_unspent (req_certificate req) (totalSpent ls) (db ls)")
      case (Inl e)
      with s u1 show ?thesis by simp
    next
      case (Inr p)
      obtain unspent st2 where p: "p = (unspent, st2)" by (cases p)
      from refund_unspent_balance_mono [OF Inr [unfolded p] u1(1)] obtain u2 where
        "users st2 uid = Some u2" "balance_or_0 (balance u1) \<le> balance_or_0 (balance u2)"
        by blast
      with s Inr p u1(2) show ?thesis by simp
    qed
  next
    case False
    then have "snd (sync_refund cs req st) = st"
      using assms(1) by (auto simp: sync_refund_def split: option.splits bool.splits)
    with assms(3) show ?thesis by simp
  qed
qed

text \<open>
  The claim as stated fails: the amount of a transaction is not checked, and a
  transaction of amount -5 takes the receiver's balance from 5 to 0, in both versions.
\<close>

theorem negative_amount_counterexample:
  "users alice_store ''alice'' = Some \<lparr>balance = Some 5, public_key = ''pk-alice''\<rparr> \<and>
   users (snd (sync_change toy_env toy_crypto negative_request alice_store)) ''alice'' =
     Some \<lparr>balance = Some 0, public_key = ''pk-alice''\<rparr> \<and>
   users (snd (sync_refund toy_crypto negative_request alice_store)) ''alice'' =
     Some \<lparr>balance = Some 0, public_key = ''pk-alice''\<rparr>"
  by (simp add: sync_change_def sync_refund_def negative_request_def isCertValid_def route_defs
        alice_store_def tx_negative_def change_certificate_def)


lemma issue_certificate_user_id:
  "issue_certificate ev cs rq st = (Json200 c, st') \<Longrightarrow> user_id c \<noteq> []"
  by (auto simp: issue_certificate_def Let_def split: option.splits sum.splits if_splits)














lemma certToVerify_signature_only:
  assumes "changed_fields c c' = 1" and "signature c \<noteq> signature c'"
  shows "certToVerify c = certToVerify c'"
  using assms by (auto simp: changed_fields_def certToVerify_def split: if_splits)



text \<open>
  Claim C8. When a sync call carries a transactions array and a certificate, the outcome
  of the signature check decides the answer before anything is read from or written to
  the store, in both versions of the route. If verification returns false the answer
  is 401 ``Invalid certificate''. If verification raises, as the primitive does on a
  signature that is not well formed, the answer is 500 ``Sync failed'' and not the 401
  the claim states. In both cases the store returned is the store given.
\<close>

theorem sync_certificate_check_outcomes:
  assumes "req_transactions req = Some txs"
    and "req_certificate req = Some c"
  shows "(verify cs (certToVerify c) (signature c) (getPublicKey cs) = Some False \<longrightarrow>
            sync_change ev cs req st = (Status401 ''Invalid certificate'', st) \<and>
            sync_refund cs req st = (Status401 ''Invalid certificate'', st)) \<and>
         (verify cs (certToVerify c) (signature c) (getPublicKey cs) = None \<longrightarrow>
            sync_change ev cs req st = (Status500 ''Sync failed'', st) \<and>
            sync_refund cs req st = (Status500 ''Sync failed'', st))"
  using assms by (simp add: sync_change_def sync_refund_def isCertValid_def)

theorem sync_certificate_check_outcomes_witness:
  "sync_change toy_env strict_crypto
     \<lparr>req_certificate = Some forged_cert, req_transactions = Some [tx60],
      req_user_id = None\<rparr> alice_store = (Status401 ''Invalid certificate'', alice_store) \<and>
   sync_refund strict_crypto
     \<lparr>req_certificate = Some forged_cert, req_transactions = Some [tx60],
      req_user_id = None\<rparr> alice_store = (Status401 ''Invalid certificate'', alice_store) \<and>
   sync_change toy_env strict_crypto
     \<lparr>req_certificate = Some malformed_cert, req_transactions = Some [tx60],
      req_user_id = None\<rparr> alice_store = (Status500 ''Sync failed'', alice_store) \<and>
   sync_refund strict_crypto
     \<lparr>req_certificate = Some malformed_cert, req_transactions = Some [tx60],
      req_user_id = None\<rparr> alice_store = (Status500 ''Sync failed'', alice_store)"
proof -
  have f: "verify strict_crypto (certToVerify forged_cert) (signature forged_cert)
             (getPublicKey strict_crypto) = Some False"
    by (simp add: strict_crypto_def forged_cert_def unsigned_cert_def certToVerify_def)
  have m: "verify strict_crypto (certToVerify malformed_cert) (signature malformed_cert)
             (getPublicKey strict_crypto) = None"
    by (simp add: strict_crypto_def malformed_cert_def)
  from sync_certificate_check_outcomes
      [of "\<lparr>req_certificate = Some forged_cert, req_transactions = Some [tx60],
            req_user_id = None\<rparr>" "[tx60]" forged_cert strict_crypto toy_env alice_store]
    sync_certificate_check_outcomes
      [of "\<lparr>req_certificate = Some malformed_cert, req_transactions = Some [tx60],
            req_user_id = None\<rparr>" "[tx60]" malformed_cert strict_crypto toy_env alice_store]
    f m
  show ?thesis by simp
qed









lemma step_db_no_row:
  assumes "if recordable st tx then record_and_credit copt tx st = Inr st' else st' = st"
    and "receiverId tx \<noteq> Some uid" and "users st uid = None"
  shows "users st' uid = None"
proof (cases "recordable st tx")
  case True
  with assms(1) have "record_and_credit copt tx st = Inr st'" by simp
  from record_and_credit_users [OF this, of uid] assms(2,3) show ?thesis by simp
next
  case False
  with assms(1,3) show ?thesis by simp
qed

lemma for_of_no_row:
  assumes run: "for_of body txs ls = Inr ls'"
    and body: "\<And>tx a b. body tx a = Inr b \<Longrightarrow>
        (if recordable (db a) tx then record_and_credit copt tx (db a) = Inr (db b)
         else db b = db a)"
    and nr: "\<forall>tx \<in> set txs. receiverId tx \<noteq> Some uid"
    and u: "users (db ls) uid = None"
  shows "users (db ls') uid = None"
proof -
  let ?R = "\<lambda>a b. users (db a) uid = None \<longrightarrow> users (db b) uid = None"
  have "?R ls ls'"
  proof (rule for_of_preserves [where R = ?R, OF _ _ _ run])
    fix tx and a b :: loop_state assume "tx \<in> set txs" "body tx a = Inr b"
    then show "?R a b" using step_db_no_row [OF body] nr by blast
  qed simp_all
  with u show ?thesis by simp
qed

lemma refund_unspent_no_row:
  assumes "refund_unspent copt spent st = Inr (unspent, st')" and "users st uid = None"
  shows "users st' uid = None"
  using assms(2) by (cases copt) (auto simp: refund_unspent_users [OF assms(1)])

text \<open>
  Claim C9, as amended. In a successful sync call of either version, the syncing user is
  the certificate's \<open>user_id\<close> if a certificate was presented and the request's
  \<open>user_id\<close> otherwise, and the \<open>balance\<close> of the response is read from the store the
  call leaves behind, after all its writes: the balance column of that user's row, or
  zero if the user has no row. The read provisions nobody: if the syncing user had no
  row before the call and no transaction of the batch names them as receiver, they
  have no row after the call either, and the response reports zero.
\<close>

theorem sync_response_balance:
  "(sync_change ev cs req st = (Json200 resp, st') \<longrightarrow>
      (\<exists>uid txs.
         (case req_certificate req of Some c \<Rightarrow> Some (user_id c) | None \<Rightarrow> req_user_id req)
           = Some uid \<and>
         req_transactions req = Some txs \<and>
         resp_balance resp = (case users st' uid of None \<Rightarrow> Some 0 | Some u \<Rightarrow> balance u) \<and>
         (users st uid = None \<and> (\<forall>tx \<in> set txs. receiverId tx \<noteq> Some uid) \<longrightarrow>
            users st' uid = None \<and> resp_balance resp = Some 0))) \<and>
   (sync_refund cs req st = (Json200 resp2, st2) \<longrightarrow>
      (\<exists>uid txs.
         (case req_certificate req of Some c \<Rightarrow> Some (user_id c) | None \<Rightarrow> req_user_id req)
           = Some uid \<and>
         req_transactions req = Some txs \<and>
         resp_balance resp2 = (case users st2 uid of None \<Rightarrow> Some 0 | Some u \<Rightarrow> balance u) \<and>
         (users st uid = None \<and> (\<forall>tx \<in> set txs. receiverId tx \<noteq> Some uid) \<longrightarrow>
            users st2 uid = None \<and> resp_balance resp2 = Some 0)))"
proof (intro conjI impI)
  assume run: "sync_change ev cs req st = (Json200 resp, st')"
  from sync_change_Json200 [OF run] obtain txs where h: "req_transactions req = Some txs"
    "req_certificate req \<noteq> None \<or> truthy (req_user_id req)"
    "isCertValid cs (req_certificate req) = Some True" by blast
  from syncingUserId_Some [OF h(2)] obtain uid where u: "syncingUserId req = Some uid" by blast
  from sync_change_ok [OF h, of st ev] run obtain ls where
    l: "for_of (step_change (req_certificate req)) txs (initial_loop_state st) = Inr ls"
    and s: "st' = db ls" "resp_balance resp = final_balance st' (syncingUserId req)" by auto
  have b: "resp_balance resp = (case users st' uid of None \<Rightarrow> Some 0 | Some u \<Rightarrow> balance u)"
    using s(2) u by (simp add: final_balance_Some)
  have n: "users st' uid = None"
    if "users st uid = None" "\<forall>tx \<in> set txs. receiverId tx \<noteq> Some uid"
    using for_of_no_row [OF l step_change_db that(2)] that(1) s(1)
    by (simp add: initial_loop_state_def)
  show "\<exists>uid txs.
         (case req_certificate req of Some c \<Rightarrow> Some (user_id c) | None \<Rightarrow> req_user_id req)
           = Some uid \<and>
         req_transactions req = Some txs \<and>
         resp_balance resp = (case users st' uid of None \<Rightarrow> Some 0 | Some u \<Rightarrow> balance u) \<and>
         (users st uid = None \<and> (\<forall>tx \<in> set txs. receiverId tx \<noteq> Some uid) \<longrightarrow>
            users st' uid = None \<and> resp_balance resp = Some 0)"
  proof (intro exI [of _ uid] exI [of _ txs] conjI impI)
    show "(case req_certificate req of Some c \<Rightarrow> Some (user_id c) | None \<Rightarrow> req_user_id req)
           = Some uid" using u by (simp add: syncingUserId_def)
    show "req_transactions req = Some txs" by (rule h(1))
    show "resp_balance resp = (case users st' uid of None \<Rightarrow> Some 0 | Some u \<Rightarrow> balance u)"
      by (rule b)
  next
    assume a: "users st uid = None \<and> (\<forall>tx \<in> set txs. receiverId tx \<noteq> Some uid)"
    then show "users st' uid = None" using n by simp
    then show "resp_balance resp = Some 0" using b by simp
  qed
next
  assume run: "sync_refund cs req st = (Json200 resp2, st2)"
  from sync_refund_Json200 [OF run] obtain txs and ls :: loop_state and unspent where
    h: "req_transactions req = Some txs"
       "req_certificate req \<noteq> None \<or> truthy (req_user_id req)"
    and l: "for_of (step_refund (req_certificate req)) txs (initial_loop_state st) = Inr ls"
    and f: "refund_unspent (req_certificate req) (totalSpent ls) (db ls) = Inr (unspent, st2)"
    and r: "resp2 = \<lparr>processed = results ls, total_spent = totalSpent ls,
               resp_balance = final_balance st2 (syncingUserId req), refunded = unspent\<rparr>"
    by blast
  from syncingUserId_Some [OF h(2)] obtain uid where u: "syncingUserId req = Some uid" by blast
  have b: "resp_balance resp2 = (case users st2 uid of None \<Rightarrow> Some 0 | Some u \<Rightarrow> balance u)"
    using r u by (simp add: final_balance_Some)
  have n: "users st2 uid = None"
    if "users st uid = None" "\<forall>tx \<in> set txs. receiverId tx \<noteq> Some uid"
  proof -
    have "users (db ls) uid = None"
      using for_of_no_row [OF l step_refund_db that(2)] that(1)
      by (simp add: initial_loop_state_def)
    then show ?thesis by (rule refund_unspent_no_row [OF f])
  qed
  show "\<exists>uid txs.
         (case req_certificate req of Some c \<Rightarrow> Some (user_id c) | None \<Rightarrow> req_user_id req)
           = Some uid \<and>
         req_transactions req = Some txs \<and>
         resp_balance resp2 = (case users st2 uid of None \<Rightarrow> Some 0 | Some u \<Rightarrow> balance u) \<and>
         (users st uid = None \<and> (\<forall>tx \<in> set txs. receiverId tx \<noteq> Some uid) \<longrightarrow>
            users st2 uid = None \<and> resp_balance resp2 = Some 0)"
  proof (intro exI [of _ uid] exI [of _ txs] conjI impI)
    show "(case req_certificate req of Some c \<Rightarrow> Some (user_id c) | None \<Rightarrow> req_user_id req)
           = Some uid" using u by (simp add: syncingUserId_def)
    show "req_transactions req = Some txs" by (rule h(1))
    show "resp_balance resp2 = (case users st2 uid of None \<Rightarrow> Some 0 | Some u \<Rightarrow> balance u)"
      by (rule b)
  next
    assume a: "users st uid = None \<and> (\<forall>tx \<in> set txs. receiverId tx \<noteq> Some uid)"
    then show "users st2 uid = None" using n by simp
    then show "resp_balance resp2 = Some 0" using b by simp
  qed
qed

lemma ghost_batch_change_run:
  "sync_change toy_env toy_crypto ghost_batch_request alice_store =
     (Json200 \<lparr>processed = [''t1''], total_spent = 60, resp_balance = Some 0,
               new_certificate = None\<rparr>, relay_store)"
  by (simp add: sync_change_def ghost_batch_request_def isCertValid_def route_defs
        alice_store_def tx60_def change_certificate_def relay_store_def)

lemma ghost_batch_refund_run:
  "sync_refund toy_crypto ghost_batch_request alice_store =
     (Json200 \<lparr>processed = [''t1''], total_spent = 60, resp_balance = Some 0,
               refunded = 0\<rparr>, relay_store)"
  by (simp add: sync_refund_def ghost_batch_request_def isCertValid_def route_defs
        alice_store_def tx60_def relay_store_def)

lemma bob_change_run:
  "sync_change toy_env toy_crypto bob_request alice_store =
     (Json200 \<lparr>processed = [''t1''], total_spent = 60, resp_balance = Some 60,
               new_certificate = None\<rparr>, relay_store)"
  by (simp add: sync_change_def bob_request_def isCertValid_def route_defs
        alice_store_def tx60_def change_certificate_def relay_store_def)

lemma bob_refund_run:
  "sync_refund toy_crypto bob_request alice_store =
     (Json200 \<lparr>processed = [''t1''], total_spent = 60, resp_balance = Some 60,
               refunded = 0\<rparr>, relay_store)"
  by (simp add: sync_refund_def bob_request_def isCertValid_def route_defs
        alice_store_def tx60_def relay_store_def)

theorem sync_response_balance_witness:
  "users alice_store ''ghost'' = None \<and> users relay_store ''ghost'' = None \<and>
   fst (sync_change toy_env toy_crypto ghost_batch_request alice_store) =
     Json200 \<lparr>processed = [''t1''], total_spent = 60, resp_balance = Some 0,
              new_certificate = None\<rparr> \<and>
   fst (sync_refund toy_crypto ghost_batch_request alice_store) =
     Json200 \<lparr>processed = [''t1''], total_spent = 60, resp_balance = Some 0, refunded = 0\<rparr> \<and>
   users alice_store ''bob'' = None \<and>
   users relay_store ''bob'' =
     Some \<lparr>balance = Some 60, public_key = ''PENDING_INITIALIZATION''\<rparr> \<and>
   resp_balance \<lparr>processed = [''t1''], total_spent = 60, resp_balance = Some 60,
                 new_certificate = None\<rparr> =
     (case users relay_store ''bob'' of None \<Rightarrow> Some 0 | Some u \<Rightarrow> balance u) \<and>
   resp_balance \<lparr>processed = [''t1''], total_spent = 60, resp_balance = Some 60,
                 refunded = 0\<rparr> =
     (case users relay_store ''bob'' of None \<Rightarrow> Some 0 | Some u \<Rightarrow> balance u)"
proof -
  have g0: "users alice_store ''ghost'' = None" and b0: "users alice_store ''bob'' = None"
    by (simp_all add: alice_store_def)
  have nr: "\<forall>tx \<in> set [tx60]. receiverId tx \<noteq> Some ''ghost''"
    by (simp add: receiverId_def js_or_def truthy_def tx60_def)
  note g = sync_response_balance [of toy_env toy_crypto ghost_batch_request alice_store
      "\<lparr>processed = [''t1''], total_spent = 60, resp_balance = Some 0, new_certificate = None\<rparr>"
      relay_store
      "\<lparr>processed = [''t1''], total_spent = 60, resp_balance = Some 0, refunded = 0\<rparr>"
      relay_store]
  note b = sync_response_balance [of toy_env toy_crypto bob_request alice_store
      "\<lparr>processed = [''t1''], total_spent = 60, resp_balance = Some 60, new_certificate = None\<rparr>"
      relay_store
      "\<lparr>processed = [''t1''], total_spent = 60, resp_balance = Some 60, refunded = 0\<rparr>"
      relay_store]
  have 1: "users relay_store ''ghost'' = None"
    using g ghost_batch_change_run g0 nr by (auto simp: ghost_batch_request_def)
  have 2: "resp_balance \<lparr>processed = [''t1''], total_spent = 60, resp_balance = Some 60,
                 new_certificate = None\<rparr> =
     (case users relay_store ''bob'' of None \<Rightarrow> Some 0 | Some u \<Rightarrow> balance u)"
    using b bob_change_run by (auto simp: bob_request_def)
  have 3: "resp_balance \<lparr>processed = [''t1''], total_spent = 60, resp_balance = Some 60,
                 refunded = 0\<rparr> =
     (case users relay_store ''bob'' of None \<Rightarrow> Some 0 | Some u \<Rightarrow> balance u)"
    using b bob_refund_run by (auto simp: bob_request_def)
  have 4: "users relay_store ''bob'' =
     Some \<lparr>balance = Some 60, public_key = ''PENDING_INITIALIZATION''\<rparr>"
    by (simp add: relay_store_def)
  from g0 b0 1 2 3 4 show ?thesis
    by (simp add: ghost_batch_change_run ghost_batch_refund_run)
qed


lemma step_db_users:
  assumes "if recordable st tx then record_and_credit copt tx st = Inr st' else st' = st"
  shows "users st' =
     (if recordable st tx then
        (case receiverId tx of
           None \<Rightarrow> users st
         | Some r \<Rightarrow>
             if r \<noteq> [] \<and> r \<noteq> ''unknown'' then
               (users st)(r \<mapsto>
                  (case users st r of
                     None \<Rightarrow> \<lparr>balance = Some (amount tx), public_key = ''PENDING_INITIALIZATION''\<rparr>
                   | Some u \<Rightarrow> u\<lparr>balance := Some (balance_or_0 (balance u) + amount tx)\<rparr>))
             else users st)
      else users st)"
proof (cases "recordable st tx")
  case True
  with assms have r: "record_and_credit copt tx st = Inr st'" by simp
  show ?thesis
  proof (rule ext)
    fix uid
    show "users st' uid =
      (if recordable st tx then
        (case receiverId tx of
           None \<Rightarrow> users st
         | Some r \<Rightarrow>
             if r \<noteq> [] \<and> r \<noteq> ''unknown'' then
               (users st)(r \<mapsto>
                  (case users st r of
                     None \<Rightarrow> \<lparr>balance = Some (amount tx), public_key = ''PENDING_INITIALIZATION''\<rparr>
                   | Some u \<Rightarrow> u\<lparr>balance := Some (balance_or_0 (balance u) + amount tx)\<rparr>))
             else users st)
      else users st) uid"
      using True by (auto simp: record_and_credit_users [OF r] split: option.splits)
  qed
next
  case False
  with assms show ?thesis by simp
qed

lemma refund_unspent_users_eq:
  assumes "refund_unspent copt spent st = Inr (unspent, st')"
  shows "users st' =
     (case copt of
        None \<Rightarrow> users st
      | Some c \<Rightarrow>
          if 0 < tip_wallet_balance c - spent then
            (users st)(user_id c :=
               map_option
                 (\<lambda>u. u\<lparr>balance := Some (balance_or_0 (balance u) + (tip_wallet_balance c - spent))\<rparr>)
                 (users st (user_id c)))
          else users st)"
  by (rule ext) (auto simp: refund_unspent_users [OF assms] split: option.splits)

lemma refund_unspent_amount:
  "refund_unspent copt spent st = Inr (unspent, st') \<Longrightarrow>
   unspent = (case copt of None \<Rightarrow> 0 | Some c \<Rightarrow> tip_wallet_balance c - spent)"
  by (auto simp: refund_unspent_def Let_def split: option.splits if_splits sum.splits)

lemma sync_refund_store:
  assumes "req_transactions req = Some txs"
  shows "\<exists>ls. for_of (step_refund (req_certificate req)) txs (initial_loop_state st) = Inr ls \<and>
           (snd (sync_refund cs req st) = st \<or> snd (sync_refund cs req st) = db ls \<or>
            (\<exists>unspent. refund_unspent (req_certificate req) (totalSpent ls) (db ls) =
                         Inr (unspent, snd (sync_refund cs req st))))"
proof -
  obtain ls where l: "for_of (step_refund (req_certificate req)) txs (initial_loop_state st) = Inr ls"
    using for_of_refund_total by blast
  show ?thesis
    using l assms
    by (intro exI [of _ ls])
       (auto simp: sync_refund_def split: option.splits bool.splits sum.splits prod.splits)
qed

lemma sync_change_store:
  assumes "req_transactions req = Some txs"
  shows "\<exists>ls. for_of (step_change (req_certificate req)) txs (initial_loop_state st) = Inr ls \<and>
           (snd (sync_change ev cs req st) = st \<or> snd (sync_change ev cs req st) = db ls)"
proof -
  obtain ls where l: "for_of (step_change (req_certificate req)) txs (initial_loop_state st) = Inr ls"
    using for_of_change_total by blast
  show ?thesis
    using l assms
    by (intro exI [of _ ls])
       (auto simp: sync_change_def split: option.splits bool.splits sum.splits prod.splits)
qed


lemma for_of_single: "for_of body [tx] ls = body tx ls"
  by (simp split: sum.splits)

text \<open>
  Claim C10, as amended. If no transaction of the batch has a negative amount, then no
  balance decreases during a sync call of either version: every user who has a row
  before the call has one after it, with a balance (a null balance counting as zero) at
  least as large. The store a call returns is the store it was given, or the store the
  replay loop produced, or, in the refund version, that store after the refund. Each
  step of the loop leaves the users table as it is or, for a transaction it records,
  writes one row: the receiver's, with the amount added to its balance, or a new row
  whose balance is the amount. The refund leaves the table as it is or adds the unspent
  remainder, if positive, to the balance of the holder's row.
\<close>

theorem sync_balances_never_decrease:
  assumes "req_transactions req = Some txs"
    and "\<forall>tx \<in> set txs. 0 \<le> amount tx"
    and "users st uid = Some u"
  shows "(\<exists>u'. users (snd (sync_change ev cs req st)) uid = Some u' \<and>
            balance_or_0 (balance u) \<le> balance_or_0 (balance u')) \<and>
         (\<exists>u'. users (snd (sync_refund cs req st)) uid = Some u' \<and>
            balance_or_0 (balance u) \<le> balance_or_0 (balance u')) \<and>
         (\<exists>ls. for_of (step_change (req_certificate req)) txs (initial_loop_state st) = Inr ls \<and>
            (snd (sync_change ev cs req st) = st \<or> snd (sync_change ev cs req st) = db ls)) \<and>
         (\<exists>ls. for_of (step_refund (req_certificate req)) txs (initial_loop_state st) = Inr ls \<and>
            (snd (sync_refund cs req st) = st \<or> snd (sync_refund cs req st) = db ls \<or>
             (\<exists>unspent. refund_unspent (req_certificate req) (totalSpent ls) (db ls) =
                          Inr (unspent, snd (sync_refund cs req st))))) \<and>
         (step_change copt tx ls0 = Inr ls1 \<or> step_refund copt tx ls0 = Inr ls1 \<longrightarrow>
            users (db ls1) =
              (if recordable (db ls0) tx then
                 (case receiverId tx of
                    None \<Rightarrow> users (db ls0)
                  | Some r \<Rightarrow>
                      if r \<noteq> [] \<and> r \<noteq> ''unknown'' then
                        (users (db ls0))(r \<mapsto>
                           (case users (db ls0) r of
                              None \<Rightarrow> \<lparr>balance = Some (amount tx),
                                       public_key = ''PENDING_INITIALIZATION''\<rparr>
                            | Some v \<Rightarrow> v\<lparr>balance := Some (balance_or_0 (balance v) + amount tx)\<rparr>))
                      else users (db ls0))
               else users (db ls0))) \<and>
         (refund_unspent copt spent st0 = Inr (unspent, st1) \<longrightarrow>
            unspent = (case copt of None \<Rightarrow> 0 | Some c \<Rightarrow> tip_wallet_balance c - spent) \<and>
            users st1 =
              (case copt of
                 None \<Rightarrow> users st0
               | Some c \<Rightarrow>
                   if 0 < tip_wallet_balance c - spent then
                     (users st0)(user_id c :=
                        map_option
                          (\<lambda>v. v\<lparr>balance := Some (balance_or_0 (balance v) +
                                                   (tip_wallet_balance c - spent))\<rparr>)
                          (users st0 (user_id c)))
                   else users st0))"
proof (intro conjI impI)
  note lb = sync_balance_lower_bound [OF assms, of ev cs]
  show "\<exists>u'. users (snd (sync_change ev cs req st)) uid = Some u' \<and>
            balance_or_0 (balance u) \<le> balance_or_0 (balance u')"
    using lb by (rule conjunct1)
  show "\<exists>u'. users (snd (sync_refund cs req st)) uid = Some u' \<and>
            balance_or_0 (balance u) \<le> balance_or_0 (balance u')"
    using lb by (rule conjunct2)
  show "\<exists>ls. for_of (step_change (req_certificate req)) txs (initial_loop_state st) = Inr ls \<and>
            (snd (sync_change ev cs req st) = st \<or> snd (sync_change ev cs req st) = db ls)"
    by (rule sync_change_store [OF assms(1)])
  show "\<exists>ls. for_of (step_refund (req_certificate req)) txs (initial_loop_state st) = Inr ls \<and>
            (snd (sync_refund cs req st) = st \<or> snd (sync_refund cs req st) = db ls \<or>
             (\<exists>unspent. refund_unspent (req_certificate req) (totalSpent ls) (db ls) =
                          Inr (unspent, snd (sync_refund cs req st))))"
    by (rule sync_refund_store [OF assms(1)])
next
  assume "step_change copt tx ls0 = Inr ls1 \<or> step_refund copt tx ls0 = Inr ls1"
  then have "if recordable (db ls0) tx then record_and_credit copt tx (db ls0) = Inr (db ls1)
             else db ls1 = db ls0"
    using step_change_db step_refund_db by blast
  then show "users (db ls1) =
              (if recordable (db ls0) tx then
                 (case receiverId tx of
                    None \<Rightarrow> users (db ls0)
                  | Some r \<Rightarrow>
                      if r \<noteq> [] \<and> r \<noteq> ''unknown'' then
                        (users (db ls0))(r \<mapsto>
                           (case users (db ls0) r of
                              None \<Rightarrow> \<lparr>balance = Some (amount tx),
                                       public_key = ''PENDING_INITIALIZATION''\<rparr>
                            | Some v \<Rightarrow> v\<lparr>balance := Some (balance_or_0 (balance v) + amount tx)\<rparr>))
                      else users (db ls0))
               else users (db ls0))"
    by (rule step_db_users)
next
  assume r: "refund_unspent copt spent st0 = Inr (unspent, st1)"
  show "unspent = (case copt of None \<Rightarrow> 0 | Some c \<Rightarrow> tip_wallet_balance c - spent)"
    by (rule refund_unspent_amount [OF r])
  show "users st1 =
              (case copt of
                 None \<Rightarrow> users st0
               | Some c \<Rightarrow>
                   if 0 < tip_wallet_balance c - spent then
                     (users st0)(user_id c :=
                        map_option
                          (\<lambda>v. v\<lparr>balance := Some (balance_or_0 (balance v) +
                                                   (tip_wallet_balance c - spent))\<rparr>)
                          (users st0 (user_id c)))
                   else users st0)"
    by (rule refund_unspent_users_eq [OF r])
qed

theorem sync_balances_never_decrease_witness:
  "(\<exists>u'. users (snd (sync_change toy_env toy_crypto alice_request alice_store)) ''alice'' = Some u' \<and>
          5 \<le> balance_or_0 (balance u')) \<and>
   (\<exists>u'. users (snd (sync_refund toy_crypto alice_request alice_store)) ''alice'' = Some u' \<and>
          5 \<le> balance_or_0 (balance u')) \<and>
   (\<exists>ls1. step_change (Some alice_cert) tx60 (initial_loop_state alice_store) = Inr ls1 \<and>
      users (db ls1) =
        (users alice_store)(''bob'' \<mapsto>
           \<lparr>balance = Some 60, public_key = ''PENDING_INITIALIZATION''\<rparr>)) \<and>
   (\<exists>st1. refund_unspent (Some alice_cert) 60 stored_store = Inr (40, st1) \<and>
      users st1 =
        (users stored_store)(''alice'' \<mapsto> \<lparr>balance = Some 45, public_key = ''pk-alice''\<rparr>))"
proof -
  have h: "req_transactions alice_request = Some [tx60]" "\<forall>tx \<in> set [tx60]. 0 \<le> amount tx"
    "users alice_store ''alice'' = Some \<lparr>balance = Some 5, public_key = ''pk-alice''\<rparr>"
    by (simp_all add: alice_request_def tx60_def alice_store_def)
  obtain ls1 where s: "step_change (Some alice_cert) tx60 (initial_loop_state alice_store) = Inr ls1"
    using step_change_total by blast
  have a: "users stored_store ''alice'' = Some \<lparr>balance = Some 5, public_key = ''pk-alice''\<rparr>"
    by (simp add: stored_store_def)
  have "0 < tip_wallet_balance alice_cert - 60" by (simp add: alice_cert_fields)
  from refund_unspent_positive [OF this, of stored_store] a
  obtain st1 where r: "refund_unspent (Some alice_cert) 60 stored_store = Inr (40, st1)"
    by (simp add: alice_cert_fields)
  note t = sync_balances_never_decrease [OF h, where ev = toy_env and cs = toy_crypto
      and copt = "Some alice_cert" and tx = tx60 and ?ls0.0 = "initial_loop_state alice_store"
      and ?ls1.0 = ls1 and spent = 60 and ?st0.0 = stored_store and unspent = 40
      and ?st1.0 = st1]
  have 1: "\<exists>u'. users (snd (sync_change toy_env toy_crypto alice_request alice_store)) ''alice'' = Some u' \<and>
          5 \<le> balance_or_0 (balance u')"
    using t by (simp add: balance_or_0_def)
  have 2: "\<exists>u'. users (snd (sync_refund toy_crypto alice_request alice_store)) ''alice'' = Some u' \<and>
          5 \<le> balance_or_0 (balance u')"
    using t by (simp add: balance_or_0_def)
  have rc: "recordable (db (initial_loop_state alice_store)) tx60"
    "receiverId tx60 = Some ''bob''" "amount tx60 = 60"
    "users (db (initial_loop_state alice_store)) = users alice_store"
    "users alice_store ''bob'' = None"
    by (simp_all add: recordable_def initial_loop_state_def alice_store_def tx60_def truthy_def
          receiverId_def js_or_def)
  have 3: "users (db ls1) =
        (users alice_store)(''bob'' \<mapsto>
           \<lparr>balance = Some 60, public_key = ''PENDING_INITIALIZATION''\<rparr>)"
    using t s by (simp add: rc)
  have 4: "users st1 =
        (users stored_store)(''alice'' \<mapsto> \<lparr>balance = Some 45, public_key = ''pk-alice''\<rparr>)"
    using t r by (simp add: alice_cert_fields a balance_or_0_def)
  from 1 2 3 4 s r show ?thesis by blast
qed


end
